theory Spec2Isabelle
  imports Complex_Main
begin

section \<open>Python values\<close>

text \<open>
  The exceptions the modelled code can raise. \<open>ConfigError\<close> stands for the bare
  \<open>Exception\<close> raised by the constructor of the averaging learner.
\<close>

datatype py_error = ConfigError | TypeError | KeyError | IndexError | ZeroDivisionError | ValueError

text \<open>
  A Python float is modelled as an exact real or one of the three special values.
  Rounding and signed zeros are not modelled: arithmetic on finite values is exact.
\<close>

datatype pyfloat = Fin real | PInf | NInf | NaN

text \<open>Python's \<open>a / b\<close> on floats: a zero divisor raises, whatever the dividend is.\<close>

fun pf_div :: "pyfloat \<Rightarrow> pyfloat \<Rightarrow> py_error + pyfloat" where
  "pf_div a (Fin d) =
     (if d = 0 then Inl ZeroDivisionError
      else case a of
             Fin x \<Rightarrow> Inr (Fin (x / d))
           | PInf \<Rightarrow> Inr (if 0 < d then PInf else NInf)
           | NInf \<Rightarrow> Inr (if 0 < d then NInf else PInf)
           | NaN \<Rightarrow> Inr NaN)"
| "pf_div a NaN = Inr NaN"
| "pf_div (Fin x) b = Inr (Fin 0)"
| "pf_div a b = Inr NaN"

text \<open>Python's \<open>a < b\<close> on floats: every comparison with NaN is false.\<close>

fun pf_less :: "pyfloat \<Rightarrow> pyfloat \<Rightarrow> bool" where
  "pf_less NaN b = False"
| "pf_less a NaN = False"
| "pf_less (Fin x) (Fin y) = (x < y)"
| "pf_less NInf b = (b \<noteq> NInf)"
| "pf_less a PInf = (a \<noteq> PInf)"
| "pf_less a b = False"

text \<open>Python's two-argument \<open>max(a, b)\<close>: the second wins only when strictly greater.\<close>

definition pf_max :: "pyfloat \<Rightarrow> pyfloat \<Rightarrow> pyfloat" where
  "pf_max a b = (if pf_less a b then b else a)"

text \<open>\<open>math.sqrt\<close> on a finite number: a negative argument raises \<open>ValueError\<close>.\<close>

definition py_sqrt :: "real \<Rightarrow> py_error + real" where
  "py_sqrt x = (if x < 0 then Inl ValueError else Inr (sqrt x))"

section \<open>The averaging learner\<close>

text \<open>
  \<open>AverageLearner\<close>: \<open>data_avg\<close> maps an integer index to a value or to \<open>None\<close>
  (the pending sentinel, here the inner \<open>None\<close>).
\<close>

record average_learner =
  data_avg :: "int \<rightharpoonup> real option"
  atol_avg :: pyfloat
  rtol_avg :: pyfloat
  n_avg :: int
  n_requested_avg :: int
  sum_f_avg :: real
  sum_f_sq_avg :: real

definition init_average :: "pyfloat option \<Rightarrow> pyfloat option \<Rightarrow> py_error + average_learner" where
  "init_average a r =
     (if a = None \<and> r = None then Inl ConfigError
      else Inr \<lparr> data_avg = Map.empty,
                 atol_avg = (case a of None \<Rightarrow> PInf | Some x \<Rightarrow> x),
                 rtol_avg = (case r of None \<Rightarrow> PInf | Some x \<Rightarrow> x),
                 n_avg = 0, n_requested_avg = 0, sum_f_avg = 0, sum_f_sq_avg = 0 \<rparr>)"

definition add_point_avg :: "int \<Rightarrow> real option \<Rightarrow> average_learner \<Rightarrow> average_learner" where
  "add_point_avg k v s =
     (let s1 = s\<lparr> data_avg := (data_avg s)(k \<mapsto> v) \<rparr>
      in case v of
           None \<Rightarrow> s1\<lparr> n_requested_avg := n_requested_avg s1 + 1 \<rparr>
         | Some y \<Rightarrow> s1\<lparr> n_avg := n_avg s1 + 1, sum_f_avg := sum_f_avg s1 + y, sum_f_sq_avg := sum_f_sq_avg s1 + y\<^sup>2 \<rparr>)"

text \<open>\<open>BaseLearner.add_data\<close> on two sequences: one \<open>add_point\<close> per zipped pair.\<close>

definition add_data_avg :: "int list \<Rightarrow> real option list \<Rightarrow> average_learner \<Rightarrow> average_learner" where
  "add_data_avg xs ys s = foldl (\<lambda>t (x, y). add_point_avg x y t) s (zip xs ys)"

text \<open>
  \<open>choose_points\<close>: the next \<open>k\<close> indices, \<open>k\<close> loss improvements \<open>None\<close>, and the state.
  \<open>itertools.repeat(None)\<close> is cut by \<open>zip\<close> to the length of the points.
\<close>

definition choose_points_avg ::
  "int \<Rightarrow> bool \<Rightarrow> average_learner \<Rightarrow> (int list \<times> pyfloat option list) \<times> average_learner" where
  "choose_points_avg k add s =
     (let points = [n_requested_avg s ..  n_requested_avg s + k - 1];
          loss_improvements = replicate (nat k) None
      in ((points, loss_improvements),
          (if add then add_data_avg points (replicate (length points) None) s else s)))"

definition mean_avg :: "average_learner \<Rightarrow> py_error + real" where
  "mean_avg s = (if n_avg s = 0 then Inl ZeroDivisionError else Inr (sum_f_avg s / real_of_int (n_avg s)))"

definition std_avg :: "average_learner \<Rightarrow> py_error + pyfloat" where
  "std_avg s =
     (if n_avg s < 2 then Inr PInf
      else case mean_avg s of
             Inl e \<Rightarrow> Inl e
           | Inr m \<Rightarrow>
               (case py_sqrt ((sum_f_sq_avg s - real_of_int (n_avg s) * m\<^sup>2) / real_of_int (n_avg s - 1)) of
                  Inl e \<Rightarrow> Inl e
                | Inr r \<Rightarrow> Inr (Fin r)))"

definition loss_avg :: "bool \<Rightarrow> average_learner \<Rightarrow> py_error + pyfloat" where
  "loss_avg rl s =
     (if n_avg s < 2 then Inr PInf
      else case std_avg s of Inl e \<Rightarrow> Inl e | Inr sd \<Rightarrow>
           (case py_sqrt (real_of_int (if rl then n_avg s else n_requested_avg s)) of Inl e \<Rightarrow> Inl e | Inr rt \<Rightarrow>
           (case pf_div sd (Fin rt) of Inl e \<Rightarrow> Inl e | Inr standard_error \<Rightarrow>
           (case pf_div standard_error (atol_avg s) of Inl e \<Rightarrow> Inl e | Inr a \<Rightarrow>
           (case mean_avg s of Inl e \<Rightarrow> Inl e | Inr m \<Rightarrow>
           (case pf_div standard_error (Fin \<bar>m\<bar>) of Inl e \<Rightarrow> Inl e | Inr q \<Rightarrow>
           (case pf_div q (rtol_avg s) of Inl e \<Rightarrow> Inl e | Inr b \<Rightarrow>
              Inr (pf_max a b))))))))"

text \<open>\<open>AverageLearner.remove_unfinished\<close> has the body \<open>pass\<close>.\<close>

definition remove_unfinished_avg :: "average_learner \<Rightarrow> average_learner" where
  "remove_unfinished_avg s = s"

text \<open>A run of \<open>add_point\<close> calls, and the real values among them in order.\<close>

definition add_points_avg :: "(int \<times> real option) list \<Rightarrow> average_learner \<Rightarrow> average_learner" where
  "add_points_avg ops s = foldl (\<lambda>t (x, y). add_point_avg x y t) s ops"

fun observed :: "('k \<times> 'v option) list \<Rightarrow> 'v list" where
  "observed [] = []"
| "observed ((k, None) # ops) = observed ops"
| "observed ((k, Some v) # ops) = v # observed ops"

section \<open>More float operations\<close>

text \<open>Python's \<open>a == b\<close> on floats (NaN equals nothing).\<close>

fun pf_eq :: "pyfloat \<Rightarrow> pyfloat \<Rightarrow> bool" where
  "pf_eq NaN b = False"
| "pf_eq a NaN = False"
| "pf_eq a b = (a = b)"

definition pf_min :: "pyfloat \<Rightarrow> pyfloat \<Rightarrow> pyfloat" where
  "pf_min a b = (if pf_less b a then b else a)"

fun pf_neg :: "pyfloat \<Rightarrow> pyfloat" where
  "pf_neg (Fin x) = Fin (- x)"
| "pf_neg PInf = NInf"
| "pf_neg NInf = PInf"
| "pf_neg NaN = NaN"

fun pf_add :: "pyfloat \<Rightarrow> pyfloat \<Rightarrow> pyfloat" where
  "pf_add (Fin x) (Fin y) = Fin (x + y)"
| "pf_add NaN b = NaN"
| "pf_add a NaN = NaN"
| "pf_add PInf NInf = NaN"
| "pf_add NInf PInf = NaN"
| "pf_add (Fin x) b = b"
| "pf_add a b = a"

definition pf_sub :: "pyfloat \<Rightarrow> pyfloat \<Rightarrow> pyfloat" where
  "pf_sub a b = pf_add a (pf_neg b)"

fun pf_mul :: "pyfloat \<Rightarrow> pyfloat \<Rightarrow> pyfloat" where
  "pf_mul (Fin x) (Fin y) = Fin (x * y)"
| "pf_mul NaN b = NaN"
| "pf_mul a NaN = NaN"
| "pf_mul (Fin x) b = (if x = 0 then NaN else if 0 < x then b else pf_neg b)"
| "pf_mul a (Fin y) = (if y = 0 then NaN else if 0 < y then a else pf_neg a)"
| "pf_mul a b = (if a = b then PInf else NInf)"

text \<open>\<open>x ** 2\<close>.\<close>

definition pf_sq :: "pyfloat \<Rightarrow> pyfloat" where
  "pf_sq a = pf_mul a a"

text \<open>\<open>math.sqrt\<close> on any float.\<close>

fun pf_sqrt :: "pyfloat \<Rightarrow> py_error + pyfloat" where
  "pf_sqrt (Fin x) = (if x < 0 then Inl ValueError else Inr (Fin (sqrt x)))"
| "pf_sqrt PInf = Inr PInf"
| "pf_sqrt NInf = Inl ValueError"
| "pf_sqrt NaN = Inr NaN"

text \<open>
  Python's \<open>a > b\<close> on lists of floats: the first position where the elements differ
  decides; when one list is a prefix of the other, the longer one is the greater.
\<close>

fun list_gt :: "pyfloat list \<Rightarrow> pyfloat list \<Rightarrow> bool" where
  "list_gt [] ys = False"
| "list_gt (x # xs) [] = True"
| "list_gt (x # xs) (y # ys) = (if pf_eq x y then list_gt xs ys else pf_less y x)"

section \<open>Dictionaries\<close>

text \<open>
  A Python \<open>dict\<close> is an association list in insertion order with distinct keys:
  \<open>d[k] = v\<close> overwrites in place or appends, \<open>del d[k]\<close> removes the key (the callers
  here ignore the \<open>KeyError\<close> of a missing key).
\<close>

fun dict_set :: "'k \<Rightarrow> 'v \<Rightarrow> ('k \<times> 'v) list \<Rightarrow> ('k \<times> 'v) list" where
  "dict_set k v [] = [(k, v)]"
| "dict_set k v ((k', v') # d) = (if k' = k then (k', v) # d else (k', v') # dict_set k v d)"

definition dict_del :: "'k \<Rightarrow> ('k \<times> 'v) list \<Rightarrow> ('k \<times> 'v) list" where
  "dict_del k d = filter (\<lambda>p. fst p \<noteq> k) d"

text \<open>\<open>{**a, **b}\<close>: the items of \<open>a\<close>, then those of \<open>b\<close> written over them.\<close>

definition dict_merge :: "('k \<times> 'v) list \<Rightarrow> ('k \<times> 'v) list \<Rightarrow> ('k \<times> 'v) list" where
  "dict_merge a b = foldl (\<lambda>d (k, v). dict_set k v d) a b"

text \<open>
  A \<open>SortedDict\<close> is an association list with strictly increasing keys; assignment
  overwrites an existing key or inserts at the sorted position.
\<close>

fun sd_set :: "real \<Rightarrow> 'v \<Rightarrow> (real \<times> 'v) list \<Rightarrow> (real \<times> 'v) list" where
  "sd_set k v [] = [(k, v)]"
| "sd_set k v ((k', v') # d) =
     (if k < k' then (k, v) # (k', v') # d
      else if k = k' then (k', v) # d
      else (k', v') # sd_set k v d)"

text \<open>
  \<open>bisect_left\<close> on the sorted key list: the number of keys below \<open>x\<close> (the library
  finds it by binary search; on a sorted list the result is the same).
\<close>

definition bisect_left :: "real list \<Rightarrow> real \<Rightarrow> nat" where
  "bisect_left ks x = length (takeWhile (\<lambda>k. k < x) ks)"

section \<open>The 1-D learner\<close>

type_synonym nbrs = "(real \<times> (real option \<times> real option)) list"
type_synonym lossmap = "((real \<times> real) \<times> pyfloat) list"

text \<open>
  \<open>Learner1D\<close>. \<open>data\<close> is a \<open>SortedDict\<close> of observed values; \<open>data_interp\<close> a
  \<open>dict\<close> whose keys are the pending points (value \<open>None\<close> until interpolated);
  \<open>_bbox\<close> is \<open>[[minx, maxx], [miny, maxy]]\<close> and \<open>_scale\<close>, \<open>_oldscale\<close> are the
  two-element lists \<open>[x-scale, y-scale]\<close>, kept here as pairs.
\<close>

record learner1D =
  losses_1d :: lossmap
  losses_combined_1d :: lossmap
  data_1d :: "(real \<times> real) list"
  data_interp_1d :: "(real \<times> real option) list"
  neighbors_1d :: nbrs
  neighbors_combined_1d :: nbrs
  bbox_x_1d :: "real \<times> real"
  bbox_y_1d :: "pyfloat \<times> pyfloat"
  scale_1d :: "pyfloat \<times> pyfloat"
  oldscale_1d :: "pyfloat \<times> pyfloat"
  bounds_1d :: "real \<times> real"

definition init_1d :: "real \<times> real \<Rightarrow> learner1D" where
  "init_1d b =
     \<lparr> losses_1d = [], losses_combined_1d = [], data_1d = [], data_interp_1d = [],
       neighbors_1d = [], neighbors_combined_1d = [],
       bbox_x_1d = b, bbox_y_1d = (PInf, NInf),
       scale_1d = (Fin (snd b - fst b), Fin 0),
       oldscale_1d = (Fin (snd b - fst b), Fin 0),
       bounds_1d = b \<rparr>"

text \<open>\<open>data_combined\<close> is \<open>{**self.data, **self.data_interp}\<close>.\<close>

definition data_combined_1d :: "learner1D \<Rightarrow> (real \<times> real option) list" where
  "data_combined_1d s = dict_merge (map (\<lambda>(x, y). (x, Some y)) (data_1d s)) (data_interp_1d s)"

text \<open>
  \<open>interval_loss\<close>. A missing key raises \<open>KeyError\<close>, a value \<open>None\<close> makes the
  subtraction raise \<open>TypeError\<close>, a zero x-scale raises \<open>ZeroDivisionError\<close>.
\<close>

definition interval_loss ::
  "pyfloat \<times> pyfloat \<Rightarrow> real \<Rightarrow> real \<Rightarrow> (real \<times> real option) list \<Rightarrow> py_error + pyfloat" where
  "interval_loss sc x_left x_right d =
     (case map_of d x_right of None \<Rightarrow> Inl KeyError | Some y_right \<Rightarrow>
      (case map_of d x_left of None \<Rightarrow> Inl KeyError | Some y_left \<Rightarrow>
       (if pf_eq (snd sc) (Fin 0) then
          (case pf_div (Fin (x_right - x_left)) (fst sc) of Inl e \<Rightarrow> Inl e | Inr dx \<Rightarrow>
             pf_sqrt (pf_sq dx))
        else
          (case pf_div (Fin (x_right - x_left)) (fst sc) of Inl e \<Rightarrow> Inl e | Inr dx \<Rightarrow>
           (case (y_right, y_left) of
              (Some yr, Some yl) \<Rightarrow>
                (case pf_div (Fin (yr - yl)) (snd sc) of Inl e \<Rightarrow> Inl e | Inr dy \<Rightarrow>
                   pf_sqrt (pf_add (pf_sq dx) (pf_sq dy)))
            | _ \<Rightarrow> Inl TypeError)))))"

text \<open>\<open>loss\<close>: the largest value of the chosen loss map, \<open>+inf\<close> when it is empty.\<close>

definition loss_1d :: "bool \<Rightarrow> learner1D \<Rightarrow> pyfloat" where
  "loss_1d rl s =
     (let ls = (if rl then losses_1d s else losses_combined_1d s)
      in case map snd ls of [] \<Rightarrow> PInf | v # vs \<Rightarrow> foldl pf_max v vs)"

text \<open>
  \<open>update_losses\<close>. The final \<open>del losses[x_lower, x_upper]\<close> finds no key when either
  neighbour is \<open>None\<close> (no key holds \<open>None\<close>), and the \<open>KeyError\<close> is swallowed.
\<close>

definition update_losses ::
  "pyfloat \<times> pyfloat \<Rightarrow> real \<Rightarrow> (real \<times> real option) list \<Rightarrow> nbrs \<Rightarrow> lossmap \<Rightarrow> py_error + lossmap" where
  "update_losses sc x d nb ls =
     (case map_of nb x of None \<Rightarrow> Inl KeyError | Some (x_lower, x_upper) \<Rightarrow>
      (case (case x_lower of None \<Rightarrow> Inr ls
             | Some l \<Rightarrow> (case interval_loss sc l x d of Inl e \<Rightarrow> Inl e
                          | Inr v \<Rightarrow> Inr (dict_set (l, x) v ls))) of
         Inl e \<Rightarrow> Inl e
       | Inr ls1 \<Rightarrow>
      (case (case x_upper of None \<Rightarrow> Inr ls1
             | Some u \<Rightarrow> (case interval_loss sc x u d of Inl e \<Rightarrow> Inl e
                          | Inr v \<Rightarrow> Inr (dict_set (x, u) v ls1))) of
         Inl e \<Rightarrow> Inl e
       | Inr ls2 \<Rightarrow>
           Inr (case (x_lower, x_upper) of
                  (Some l, Some u) \<Rightarrow> dict_del (l, u) ls2
                | _ \<Rightarrow> ls2))))"

definition find_neighbors :: "real \<Rightarrow> nbrs \<Rightarrow> real option \<times> real option" where
  "find_neighbors x nb =
     (let ks = map fst nb; pos = bisect_left ks x
      in (if pos \<noteq> 0 then Some (ks ! (pos - 1)) else None,
          if pos \<noteq> length ks then Some (ks ! pos) else None))"

text \<open>
  \<open>neighbors.get(k, [None, None])[1] = x\<close> writes into the entry of \<open>k\<close> when there is
  one and into a throw-away list otherwise (also when \<open>k\<close> is \<open>None\<close>).
\<close>

definition set_upper :: "real option \<Rightarrow> real \<Rightarrow> nbrs \<Rightarrow> nbrs" where
  "set_upper k x nb = map (\<lambda>(k', (lo, up)). if Some k' = k then (k', (lo, Some x)) else (k', (lo, up))) nb"

definition set_lower :: "real option \<Rightarrow> real \<Rightarrow> nbrs \<Rightarrow> nbrs" where
  "set_lower k x nb = map (\<lambda>(k', (lo, up)). if Some k' = k then (k', (Some x, up)) else (k', (lo, up))) nb"

definition update_neighbors :: "real \<Rightarrow> nbrs \<Rightarrow> nbrs" where
  "update_neighbors x nb =
     (if map_of nb x = None then
        (case find_neighbors x nb of (x_lower, x_upper) \<Rightarrow>
           set_lower x_upper x (set_upper x_lower x (sd_set x (x_lower, x_upper) nb)))
      else nb)"

definition update_scale :: "real \<Rightarrow> real option \<Rightarrow> learner1D \<Rightarrow> learner1D" where
  "update_scale x y s =
     (let bx = (min (fst (bbox_x_1d s)) x, max (snd (bbox_x_1d s)) x);
          by = (case y of None \<Rightarrow> bbox_y_1d s
                | Some v \<Rightarrow> (pf_min (fst (bbox_y_1d s)) (Fin v), pf_max (snd (bbox_y_1d s)) (Fin v)))
      in s\<lparr> bbox_x_1d := bx, bbox_y_1d := by,
             scale_1d := (Fin (snd bx - fst bx), pf_sub (snd by) (fst by)) \<rparr>)"

text \<open>
  \<open>np.interp(x, xs, ys)\<close> on increasing \<open>xs\<close>: the end values outside the range of the
  data, the straight line between the two surrounding points inside.
\<close>

fun np_interp :: "(real \<times> real) list \<Rightarrow> real \<Rightarrow> real" where
  "np_interp [] x = 0"
| "np_interp [(x0, y0)] x = y0"
| "np_interp ((x0, y0) # (x1, y1) # ps) x =
     (if x \<le> x0 then y0
      else if x < x1 then (y1 - y0) / (x1 - x0) * (x - x0) + y0
      else np_interp ((x1, y1) # ps) x)"

text \<open>\<open>interpolate()\<close> with \<open>extra_points=None\<close>.\<close>

definition interpolate :: "learner1D \<Rightarrow> (real \<times> real option) list" where
  "interpolate s =
     (let xs_unfinished = map fst (data_interp_1d s)
      in if data_1d s = [] then map (\<lambda>x. (x, Some 0)) xs_unfinished
         else map (\<lambda>x. (x, Some (np_interp (data_1d s) x))) xs_unfinished)"

text \<open>The dict comprehension \<open>{key: self.interval_loss(*key, data) for key in losses}\<close>.\<close>

fun recompute_losses ::
  "pyfloat \<times> pyfloat \<Rightarrow> (real \<times> real option) list \<Rightarrow> lossmap \<Rightarrow> py_error + lossmap" where
  "recompute_losses sc d [] = Inr []"
| "recompute_losses sc d (((a, b), v) # ls) =
     (case interval_loss sc a b d of Inl e \<Rightarrow> Inl e
      | Inr w \<Rightarrow> (case recompute_losses sc d ls of Inl e \<Rightarrow> Inl e
                   | Inr ls' \<Rightarrow> Inr (((a, b), w) # ls')))"

text \<open>The pair \<open>_scale\<close> as the Python list it is.\<close>

definition as_list :: "pyfloat \<times> pyfloat \<Rightarrow> pyfloat list" where
  "as_list p = [fst p, snd p]"

text \<open>
  The test \<open>self._scale > self._oldscale * 2\<close> of \<open>add_point\<close>: both operands are
  lists, so \<open>* 2\<close> repeats the list and \<open>>\<close> compares lexicographically.
\<close>

definition scale_doubled :: "learner1D \<Rightarrow> bool" where
  "scale_doubled s = list_gt (as_list (scale_1d s)) (as_list (oldscale_1d s) @ as_list (oldscale_1d s))"

definition add_point_1d :: "real \<Rightarrow> real option \<Rightarrow> learner1D \<Rightarrow> py_error + learner1D" where
  "add_point_1d x y s =
     (let rl = (y \<noteq> None);
          s1 = (case y of
                  Some v \<Rightarrow> s\<lparr> data_1d := sd_set x v (data_1d s),
                               data_interp_1d := dict_del x (data_interp_1d s) \<rparr>
                | None \<Rightarrow> s\<lparr> data_interp_1d := dict_set x None (data_interp_1d s) \<rparr>);
          s2 = s1\<lparr> neighbors_combined_1d := update_neighbors x (neighbors_combined_1d s1) \<rparr>;
          s3 = (if rl then s2\<lparr> neighbors_1d := update_neighbors x (neighbors_1d s2) \<rparr> else s2);
          s4 = update_scale x y s3;
          s5 = (if \<not> rl then s4\<lparr> data_interp_1d := interpolate s4 \<rparr> else s4)
      in case update_losses (scale_1d s5) x (data_combined_1d s5) (neighbors_combined_1d s5)
                (losses_combined_1d s5) of
           Inl e \<Rightarrow> Inl e
         | Inr lc \<Rightarrow>
             (let s6 = s5\<lparr> losses_combined_1d := lc \<rparr>
              in if rl then
                   (case update_losses (scale_1d s6) x (map (\<lambda>(k, v). (k, Some v)) (data_1d s6))
                           (neighbors_1d s6) (losses_1d s6) of
                      Inl e \<Rightarrow> Inl e
                    | Inr lr \<Rightarrow>
                        (let s7 = s6\<lparr> losses_1d := lr \<rparr>
                         in if scale_doubled s7 then
                              (case recompute_losses (scale_1d s7)
                                      (map (\<lambda>(k, v). (k, Some v)) (data_1d s7)) (losses_1d s7) of
                                 Inl e \<Rightarrow> Inl e
                               | Inr l1 \<Rightarrow>
                                   (case recompute_losses (scale_1d s7) (data_combined_1d (s7\<lparr> losses_1d := l1 \<rparr>))
                                           (losses_combined_1d s7) of
                                      Inl e \<Rightarrow> Inl e
                                    | Inr l2 \<Rightarrow>
                                        Inr (s7\<lparr> losses_1d := l1, losses_combined_1d := l2,
                                                 oldscale_1d := scale_1d s7 \<rparr>)))
                            else Inr s7))
                 else Inr s6))"

text \<open>A run of \<open>add_point\<close> calls; the first exception ends it.\<close>

fun add_points_1d :: "(real \<times> real option) list \<Rightarrow> learner1D \<Rightarrow> py_error + learner1D" where
  "add_points_1d [] s = Inr s"
| "add_points_1d ((x, y) # ops) s =
     (case add_point_1d x y s of Inl e \<Rightarrow> Inl e | Inr s' \<Rightarrow> add_points_1d ops s')"

text \<open>\<open>remove_unfinished\<close> (the copies are deep copies).\<close>

definition remove_unfinished_1d :: "learner1D \<Rightarrow> learner1D" where
  "remove_unfinished_1d s =
     s\<lparr> data_interp_1d := [], losses_combined_1d := losses_1d s,
        neighbors_combined_1d := neighbors_1d s \<rparr>"


section \<open>The heap queue of the standard library\<close>

text \<open>
  \<open>heapq._siftdown(heap, startpos, pos)\<close>: the item at \<open>pos\<close> moves towards the root
  while it is smaller than its parent.
\<close>

function siftdown :: "('a \<Rightarrow> 'a \<Rightarrow> bool) \<Rightarrow> 'a list \<Rightarrow> nat \<Rightarrow> nat \<Rightarrow> 'a \<Rightarrow> 'a list" where
  "siftdown lt heap startpos pos newitem =
     (if startpos < pos then
        (let parentpos = (pos - 1) div 2; parent = heap ! parentpos
         in if lt newitem parent then siftdown lt (heap[pos := parent]) startpos parentpos newitem
            else heap[pos := newitem])
      else heap[pos := newitem])"
  by pat_completeness auto
termination
  by (relation "measure (\<lambda>(lt, heap, startpos, pos, newitem). pos)") auto

text \<open>
  The loop of \<open>heapq._siftup(heap, pos)\<close>: the smaller child moves up until a leaf is
  reached; the result is the heap and the position of the hole.
\<close>

function siftup_loop :: "('a \<Rightarrow> 'a \<Rightarrow> bool) \<Rightarrow> 'a list \<Rightarrow> nat \<Rightarrow> nat \<Rightarrow> 'a list \<times> nat" where
  "siftup_loop lt heap pos endpos =
     (let childpos = 2 * pos + 1
      in if childpos < endpos then
           (let rightpos = childpos + 1;
                c = (if rightpos < endpos \<and> \<not> lt (heap ! childpos) (heap ! rightpos)
                     then rightpos else childpos)
            in siftup_loop lt (heap[pos := heap ! c]) c endpos)
         else (heap, pos))"
  by pat_completeness auto
termination
  by (relation "measure (\<lambda>(lt, heap, pos, endpos). endpos - pos)") (auto simp: Let_def)

definition siftup :: "('a \<Rightarrow> 'a \<Rightarrow> bool) \<Rightarrow> 'a list \<Rightarrow> nat \<Rightarrow> 'a list" where
  "siftup lt heap pos =
     (let newitem = heap ! pos
      in case siftup_loop lt heap pos (length heap) of
           (h, p) \<Rightarrow> siftdown lt (h[p := newitem]) pos p newitem)"

text \<open>\<open>heapq.heapify(x)\<close>: \<open>_siftup\<close> at the positions \<open>n // 2 - 1\<close> down to \<open>0\<close>.\<close>

definition heapify :: "('a \<Rightarrow> 'a \<Rightarrow> bool) \<Rightarrow> 'a list \<Rightarrow> 'a list" where
  "heapify lt x = foldl (siftup lt) x (rev [0 ..< length x div 2])"

text \<open>\<open>heapq.heapreplace(heap, item)\<close>; an empty heap raises \<open>IndexError\<close>.\<close>

definition heapreplace :: "('a \<Rightarrow> 'a \<Rightarrow> bool) \<Rightarrow> 'a list \<Rightarrow> 'a \<Rightarrow> py_error + 'a list" where
  "heapreplace lt heap item = (if heap = [] then Inl IndexError else Inr (siftup lt (heap[0 := item]) 0))"

section \<open>Point selection of the 1-D learner\<close>

text \<open>
  \<open>choose_points\<close> returns the bare list \<open>[]\<close> for \<open>n == 0\<close> and a pair
  \<open>(points, loss_improvements)\<close> otherwise.
\<close>

datatype choose_result = Bare "real list" | Chosen "real list" "pyfloat list"

text \<open>The slice \<open>xs[:n]\<close>; a negative \<open>n\<close> counts from the end.\<close>

definition py_take :: "int \<Rightarrow> 'a list \<Rightarrow> 'a list" where
  "py_take k xs = (if 0 \<le> k then take (nat k) xs else take (nat (int (length xs) + k)) xs)"

text \<open>\<open>np.linspace(a, b, k)\<close> for \<open>k > 1\<close>: \<open>k\<close> evenly spaced numbers from \<open>a\<close> to \<open>b\<close>.\<close>

definition linspace :: "real \<Rightarrow> real \<Rightarrow> int \<Rightarrow> real list" where
  "linspace a b k = map (\<lambda>i. a + real_of_int i * ((b - a) / real_of_int (k - 1))) [0 .. k - 1]"

text \<open>A heap entry \<open>(quality, x_range, n)\<close> and Python's \<open><\<close> on such tuples.\<close>

type_synonym qual = "pyfloat \<times> (real \<times> real) \<times> int"

fun qual_less :: "qual \<Rightarrow> qual \<Rightarrow> bool" where
  "qual_less (q1, (a1, b1), k1) (q2, (a2, b2), k2) =
     (if \<not> pf_eq q1 q2 then pf_less q1 q2
      else if a1 \<noteq> a2 then a1 < a2
      else if b1 \<noteq> b2 then b1 < b2
      else k1 < k2)"

text \<open>
  The loop \<open>for point_number in range(n)\<close>: the root \<open>quals[0]\<close> gets one more
  subdivision and is put back with the quality \<open>quality * n / (n + 1)\<close>.
\<close>

fun allocate :: "nat \<Rightarrow> qual list \<Rightarrow> py_error + qual list" where
  "allocate 0 quals = Inr quals"
| "allocate (Suc i) quals =
     (case quals of
        [] \<Rightarrow> Inl IndexError
      | (quality, x, k) # _ \<Rightarrow>
          (case pf_div (pf_mul quality (Fin (real_of_int k))) (Fin (real_of_int (k + 1))) of
             Inl e \<Rightarrow> Inl e
           | Inr q \<Rightarrow>
               (case heapreplace qual_less quals (q, x, k + 1) of
                  Inl e \<Rightarrow> Inl e
                | Inr quals' \<Rightarrow> allocate i quals')))"

text \<open>The local function \<open>points(x, n)\<close> of \<open>choose_points\<close>.\<close>

definition points_1d :: "real \<times> real \<Rightarrow> int \<Rightarrow> py_error + real list" where
  "points_1d x k =
     (if k = 1 then Inr []
      else if k = 0 then Inl ZeroDivisionError
      else Inr (map (\<lambda>i. fst x + (snd x - fst x) / real_of_int k * real_of_int i) [1 .. k - 1]))"

text \<open>\<open>itertools.chain.from_iterable(points(x, n) for quality, x, n in quals)\<close>.\<close>

fun chain_points :: "qual list \<Rightarrow> py_error + real list" where
  "chain_points [] = Inr []"
| "chain_points ((quality, x, k) # quals) =
     (case points_1d x k of
        Inl e \<Rightarrow> Inl e
      | Inr ps \<Rightarrow> (case chain_points quals of Inl e \<Rightarrow> Inl e | Inr rest \<Rightarrow> Inr (ps @ rest)))"

text \<open>
  \<open>Learner1D.choose_points(n, add_data)\<close>. With the bounds not yet chosen the method
  returns before it looks at \<open>add_data\<close>. On the other path the statement
  \<open>self.add_data(points, itertools.repeat(None))\<close> passes the local function
  \<open>points\<close>, not the list \<open>xs\<close>: \<open>zip\<close> raises \<open>TypeError\<close>, the handler of
  \<open>add_data\<close> calls \<open>add_point(points, None)\<close>, and that compares the function
  object with a float (in \<open>bisect_left\<close>, or in \<open>min\<close> of \<open>update_scale\<close> when there
  is no key yet), which raises \<open>TypeError\<close> out of the method. The state after an
  exception is not modelled.
\<close>

definition choose_points_1d :: "int \<Rightarrow> bool \<Rightarrow> learner1D \<Rightarrow> py_error + choose_result \<times> learner1D" where
  "choose_points_1d k add s =
     (if k = 0 then Inr (Bare [], s)
      else
        (let xs = filter (\<lambda>b. map_of (data_1d s) b = None \<and> map_of (data_interp_1d s) b = None)
                    [fst (bounds_1d s), snd (bounds_1d s)]
         in if xs \<noteq> [] then
              (let loss_improvements = replicate (nat k) PInf
               in if k \<le> 2 then Inr (Chosen (py_take k xs) loss_improvements, s)
                  else Inr (Chosen (linspace (fst (bounds_1d s)) (snd (bounds_1d s)) k) loss_improvements, s))
            else
              (let quals = heapify qual_less
                             (map (\<lambda>(x_range, loss). (pf_neg loss, x_range, 1)) (losses_combined_1d s))
               in case allocate (nat k) quals of
                    Inl e \<Rightarrow> Inl e
                  | Inr quals' \<Rightarrow>
                      (case chain_points quals' of
                         Inl e \<Rightarrow> Inl e
                       | Inr xs' \<Rightarrow>
                           (let loss_improvements =
                                  concat (map (\<lambda>(quality, x, i). replicate (nat i) (pf_neg quality)) quals')
                            in if add then Inl TypeError
                               else Inr (Chosen xs' loss_improvements, s))))))"


section \<open>The 2-D learner\<close>

type_synonym point2 = "real \<times> real"

text \<open>
  Division of numpy floats: a zero divisor gives an infinity or NaN (with a warning),
  never an exception.
\<close>

definition np_div :: "real \<Rightarrow> real \<Rightarrow> pyfloat" where
  "np_div a b = (if b = 0 then (if a = 0 then NaN else if 0 < a then PInf else NInf) else Fin (a / b))"

text \<open>\<open>np.cross\<close> of two plane vectors and \<open>np.linalg.norm\<close> of one.\<close>

definition cross2 :: "point2 \<Rightarrow> point2 \<Rightarrow> real" where
  "cross2 u v = fst u * snd v - snd u * fst v"

definition sub2 :: "point2 \<Rightarrow> point2 \<Rightarrow> point2" where
  "sub2 p q = (fst p - fst q, snd p - snd q)"

definition norm2 :: "point2 \<Rightarrow> real" where
  "norm2 u = sqrt ((fst u)\<^sup>2 + (snd u)\<^sup>2)"

text \<open>\<open>argmax\<close>: the first position of a largest entry.\<close>

fun argmax_from :: "nat \<Rightarrow> real \<Rightarrow> nat \<Rightarrow> real list \<Rightarrow> nat" where
  "argmax_from best v i [] = best"
| "argmax_from best v i (x # xs) = (if v < x then argmax_from i x (Suc i) xs else argmax_from best v (Suc i) xs)"

definition argmax :: "real list \<Rightarrow> nat" where
  "argmax xs = (case xs of [] \<Rightarrow> 0 | x # rest \<Rightarrow> argmax_from 0 x 1 rest)"

text \<open>The badness computed by \<open>choose_point_in_triangle\<close> for the triangle \<open>a, b, c\<close>.\<close>

definition badness :: "point2 \<times> point2 \<times> point2 \<Rightarrow> pyfloat" where
  "badness t =
     (case t of (a, b, c) \<Rightarrow>
        (let area = 0.5 * cross2 (sub2 b a) (sub2 c a);
             triangle = [a, b, c];
             triangle_roll = [c, a, b];
             edge_lengths = map (\<lambda>(p, q). norm2 (sub2 p q)) (zip triangle triangle_roll);
             i = argmax edge_lengths
         in pf_mul (np_div ((edge_lengths ! i)\<^sup>2) area) (Fin (sqrt 3 / 4))))"

text \<open>
  \<open>choose_point_in_triangle(triangle, max_badness)\<close> for a triangle given by its three
  corners (an array of shape (3, 2)); \<open>np.roll(triangle, 1, axis=0)\<close> is \<open>[c, a, b]\<close>.
\<close>

definition choose_point_in_triangle :: "point2 \<times> point2 \<times> point2 \<Rightarrow> real \<Rightarrow> point2" where
  "choose_point_in_triangle t max_badness =
     (case t of (a, b, c) \<Rightarrow>
        (let triangle = [a, b, c];
             triangle_roll = [c, a, b];
             edge_lengths = map (\<lambda>(p, q). norm2 (sub2 p q)) (zip triangle triangle_roll);
             i = argmax edge_lengths
         in if pf_less (Fin max_badness) (badness t)
            then ((fst (triangle_roll ! i) + fst (triangle ! i)) / 2,
                  (snd (triangle_roll ! i) + snd (triangle ! i)) / 2)
            else ((fst a + fst b + fst c) / 3, (snd a + snd b + snd c) / 3)))"

text \<open>
  The words of the specification, to compare with: the squared length of the longest
  edge over the area, times \<open>sqrt 3 / 4\<close>; the midpoint of two corners; the centroid.
\<close>

definition dist_sq :: "point2 \<Rightarrow> point2 \<Rightarrow> real" where
  "dist_sq p q = (fst p - fst q)\<^sup>2 + (snd p - snd q)\<^sup>2"

definition longest_edge_sq :: "point2 \<Rightarrow> point2 \<Rightarrow> point2 \<Rightarrow> real" where
  "longest_edge_sq a b c = max (dist_sq a b) (max (dist_sq b c) (dist_sq c a))"

definition triangle_area :: "point2 \<Rightarrow> point2 \<Rightarrow> point2 \<Rightarrow> real" where
  "triangle_area a b c = ((fst b - fst a) * (snd c - snd a) - (snd b - snd a) * (fst c - fst a)) / 2"

definition badness_spec :: "point2 \<Rightarrow> point2 \<Rightarrow> point2 \<Rightarrow> real" where
  "badness_spec a b c = longest_edge_sq a b c / triangle_area a b c * (sqrt 3 / 4)"

definition midpoint2 :: "point2 \<Rightarrow> point2 \<Rightarrow> point2" where
  "midpoint2 p q = ((fst p + fst q) / 2, (snd p + snd q) / 2)"

definition centroid :: "point2 \<Rightarrow> point2 \<Rightarrow> point2 \<Rightarrow> point2" where
  "centroid a b c = ((fst a + fst b + fst c) / 3, (snd a + snd b + snd c) / 3)"

definition longest_edge_midpoint :: "point2 \<Rightarrow> point2 \<Rightarrow> point2 \<Rightarrow> point2 \<Rightarrow> bool" where
  "longest_edge_midpoint a b c m \<longleftrightarrow>
     (m = midpoint2 a b \<and> dist_sq a b = longest_edge_sq a b c) \<or>
     (m = midpoint2 b c \<and> dist_sq b c = longest_edge_sq a b c) \<or>
     (m = midpoint2 c a \<and> dist_sq c a = longest_edge_sq a b c)"

definition equilateral :: "point2 \<Rightarrow> point2 \<Rightarrow> point2 \<Rightarrow> bool" where
  "equilateral a b c \<longleftrightarrow> dist_sq a b = dist_sq b c \<and> dist_sq b c = dist_sq c a"

text \<open>
  \<open>Learner2D\<close> (module \<open>learner2D\<close>), for scalar values. \<open>data\<close> and \<open>_stack\<close> are
  ordered dictionaries; \<open>_interp\<close> is the set of pending points, kept as a list without
  repetitions (Python leaves the iteration order of a set open; the list fixes the order
  of insertion). The cached interpolants \<open>_ip\<close> and \<open>_ip_combined\<close> are represented by
  the data they were built from.
\<close>

record learner2D =
  data_2d :: "(point2 \<times> real) list"
  stack_2d :: "(point2 \<times> pyfloat) list"
  interp_2d :: "point2 list"
  bounds_points_2d :: "point2 list"
  ip_2d :: "(point2 \<times> real) list option"
  ip_combined_2d :: "(point2 \<times> real) list option"
  stack_size_2d :: nat

text \<open>\<open>itertools.product(*bounds)\<close> for the two pairs of bounds.\<close>

definition init_2d :: "(real \<times> real) \<times> (real \<times> real) \<Rightarrow> learner2D" where
  "init_2d b =
     (case b of ((a1, b1), (a2, b2)) \<Rightarrow>
        (let bp = [(a1, a2), (a1, b2), (b1, a2), (b1, b2)]
         in \<lparr> data_2d = [],
              stack_2d = foldl (\<lambda>d p. dict_set p PInf d) [] bp,
              interp_2d = [],
              bounds_points_2d = bp,
              ip_2d = None, ip_combined_2d = None,
              stack_size_2d = 10 \<rparr>))"

definition bounds_are_done :: "learner2D \<Rightarrow> bool" where
  "bounds_are_done s =
     (\<not> list_ex (\<lambda>p. p \<in> set (interp_2d s) \<or> map_of (stack_2d s) p \<noteq> None) (bounds_points_2d s))"

definition add_point_2d :: "point2 \<Rightarrow> real option \<Rightarrow> learner2D \<Rightarrow> learner2D" where
  "add_point_2d point v s =
     (let s1 = (case v of
                  None \<Rightarrow> s\<lparr> interp_2d := (if point \<in> set (interp_2d s) then interp_2d s
                                           else interp_2d s @ [point]),
                             ip_combined_2d := None \<rparr>
                | Some y \<Rightarrow> s\<lparr> data_2d := dict_set point y (data_2d s),
                               interp_2d := filter (\<lambda>p. p \<noteq> point) (interp_2d s),
                               ip_2d := None \<rparr>)
      in s1\<lparr> stack_2d := dict_del point (stack_2d s1) \<rparr>)"

definition add_points_2d :: "(point2 \<times> real option) list \<Rightarrow> learner2D \<Rightarrow> learner2D" where
  "add_points_2d ops s = foldl (\<lambda>t (p, v). add_point_2d p v t) s ops"

definition remove_unfinished_2d :: "learner2D \<Rightarrow> learner2D" where
  "remove_unfinished_2d s = s\<lparr> interp_2d := [] \<rparr>"

text \<open>\<open>ip()\<close>: the cached interpolant of the real data, rebuilt when the cache is empty.\<close>

definition ip :: "learner2D \<Rightarrow> (point2 \<times> real) list \<times> learner2D" where
  "ip s = (case ip_2d s of
             None \<Rightarrow> (data_2d s, s\<lparr> ip_2d := Some (data_2d s) \<rparr>)
           | Some d \<Rightarrow> (d, s))"

text \<open>
  \<open>data_combined()\<close>: the real data, with the pending points given the value of the
  real interpolant once the bounds are done and zero before. The parameter \<open>ev\<close> is the
  external evaluation of \<open>scipy\<close>'s interpolant (built from the given data) at a list of
  points.
\<close>

definition data_combined_2d ::
  "((point2 \<times> real) list \<Rightarrow> point2 list \<Rightarrow> real list) \<Rightarrow> learner2D \<Rightarrow> (point2 \<times> real) list \<times> learner2D" where
  "data_combined_2d ev s =
     (if interp_2d s \<noteq> [] then
        (let points_interp = interp_2d s
         in if bounds_are_done s then
              (case ip s of (d, s1) \<Rightarrow>
                 (dict_merge (data_2d s) (zip points_interp (ev d points_interp)), s1))
            else (dict_merge (data_2d s) (map (\<lambda>p. (p, 0)) points_interp), s))
      else (data_2d s, s))"

definition ip_combined ::
  "((point2 \<times> real) list \<Rightarrow> point2 list \<Rightarrow> real list) \<Rightarrow> learner2D \<Rightarrow> (point2 \<times> real) list \<times> learner2D" where
  "ip_combined ev s =
     (case ip_combined_2d s of
        None \<Rightarrow> (case data_combined_2d ev s of (d, s1) \<Rightarrow> (d, s1\<lparr> ip_combined_2d := Some d \<rparr>))
      | Some d \<Rightarrow> (d, s))"

text \<open>\<open>losses.max()\<close>: the largest entry; numpy raises \<open>ValueError\<close> on an empty array.\<close>

definition np_max :: "pyfloat list \<Rightarrow> py_error + pyfloat" where
  "np_max ls = (case ls of [] \<Rightarrow> Inl ValueError | v # vs \<Rightarrow> Inr (foldl pf_max v vs))"

text \<open>
  \<open>loss(real)\<close>. The parameter \<open>lpt\<close> stands for the external part: building
  \<open>scipy\<close>'s \<open>LinearNDInterpolator\<close> over the scaled points and applying
  \<open>loss_per_triangle\<close> to it, which gives one loss per triangle or raises.
\<close>

definition loss_2d ::
  "((point2 \<times> real) list \<Rightarrow> py_error + pyfloat list) \<Rightarrow>
   ((point2 \<times> real) list \<Rightarrow> point2 list \<Rightarrow> real list) \<Rightarrow> bool \<Rightarrow> learner2D \<Rightarrow> py_error + pyfloat" where
  "loss_2d lpt ev rl s =
     (if \<not> bounds_are_done s then Inr PInf
      else case lpt (fst (if rl then ip s else ip_combined ev s)) of
             Inl e \<Rightarrow> Inl e
           | Inr losses \<Rightarrow> np_max losses)"

section \<open>Snapshot and restore\<close>

text \<open>
  Learner objects live in a store indexed by their identity. \<open>__getstate__\<close> returns a
  deep copy of the object's \<open>__dict__\<close> (its whole state), \<open>__setstate__\<close> installs
  one.
\<close>

type_synonym 's store = "nat \<Rightarrow> 's"

definition getstate :: "'s store \<Rightarrow> nat \<Rightarrow> 's" where
  "getstate h l = h l"

definition setstate :: "'s \<Rightarrow> nat \<Rightarrow> 's store \<Rightarrow> 's store" where
  "setstate st l h = h(l := st)"

text \<open>
  The context manager \<open>restore(*learners)\<close> around a body. The body ends by returning
  or by raising; either way the \<open>finally\<close> clause puts the saved states back, and the
  outcome of the body is the outcome of the whole statement.
\<close>

definition restore ::
  "nat list \<Rightarrow> ('s store \<Rightarrow> (py_error + 'r) \<times> 's store) \<Rightarrow> 's store \<Rightarrow> (py_error + 'r) \<times> 's store" where
  "restore learners body h =
     (let states = map (getstate h) learners
      in case body h of
           (outcome, h1) \<Rightarrow>
             (outcome, foldl (\<lambda>hh (state, learner). setstate state learner hh) h1 (zip states learners)))"


section \<open>The loss maps and the neighbour structures of the 1-D learner\<close>

text \<open>
  The property in the words of the specification, as a test on a neighbour structure and
  a loss map: a key with a left (right) neighbour has a loss entry for that pair, a key
  without one has no loss entry on that side, and every loss key is a pair of keys that
  are each other's neighbours.
\<close>

definition keyed_by_neighbors :: "nbrs \<Rightarrow> lossmap \<Rightarrow> bool" where
  "keyed_by_neighbors nb ls \<longleftrightarrow>
     list_all (\<lambda>(x, (lo, up)).
        (case lo of Some l \<Rightarrow> map_of ls (l, x) \<noteq> None
                  | None \<Rightarrow> list_all (\<lambda>((a, b), v). b \<noteq> x) ls) \<and>
        (case up of Some u \<Rightarrow> map_of ls (x, u) \<noteq> None
                  | None \<Rightarrow> list_all (\<lambda>((a, b), v). a \<noteq> x) ls)) nb \<and>
     list_all (\<lambda>((a, b), v).
        (case map_of nb a of Some (lo, Some b') \<Rightarrow> b' = b | _ \<Rightarrow> False) \<and>
        (case map_of nb b of Some (Some a', up) \<Rightarrow> a' = a | _ \<Rightarrow> False)) ls"

text \<open>The invariant behind it, in terms of the set of keys.\<close>

definition keys_of :: "('k \<times> 'v) list \<Rightarrow> 'k set" where
  "keys_of d = fst ` set d"

definition is_pred :: "real set \<Rightarrow> real option \<Rightarrow> real \<Rightarrow> bool" where
  "is_pred K lo x \<longleftrightarrow>
     (case lo of None \<Rightarrow> (\<forall>k\<in>K. \<not> k < x)
      | Some l \<Rightarrow> l \<in> K \<and> l < x \<and> (\<forall>k\<in>K. \<not> (l < k \<and> k < x)))"

definition is_succ :: "real set \<Rightarrow> real option \<Rightarrow> real \<Rightarrow> bool" where
  "is_succ K up x \<longleftrightarrow>
     (case up of None \<Rightarrow> (\<forall>k\<in>K. \<not> x < k)
      | Some u \<Rightarrow> u \<in> K \<and> x < u \<and> (\<forall>k\<in>K. \<not> (x < k \<and> k < u)))"

definition nbrs_wf :: "nbrs \<Rightarrow> bool" where
  "nbrs_wf nb \<longleftrightarrow>
     sorted_wrt (<) (map fst nb) \<and>
     (\<forall>e\<in>set nb. is_pred (keys_of nb) (fst (snd e)) (fst e) \<and> is_succ (keys_of nb) (snd (snd e)) (fst e))"

definition adjacent_pairs :: "real set \<Rightarrow> (real \<times> real) set" where
  "adjacent_pairs K = {(a, b). a \<in> K \<and> b \<in> K \<and> a < b \<and> (\<forall>k\<in>K. \<not> (a < k \<and> k < b))}"

definition losses_wf :: "nbrs \<Rightarrow> lossmap \<Rightarrow> bool" where
  "losses_wf nb ls \<longleftrightarrow> distinct (map fst ls) \<and> keys_of ls = adjacent_pairs (keys_of nb)"

definition inv_1d :: "learner1D \<Rightarrow> bool" where
  "inv_1d s \<longleftrightarrow>
     nbrs_wf (neighbors_1d s) \<and> nbrs_wf (neighbors_combined_1d s) \<and>
     losses_wf (neighbors_1d s) (losses_1d s) \<and>
     losses_wf (neighbors_combined_1d s) (losses_combined_1d s) \<and>
     keys_of (neighbors_1d s) = keys_of (data_1d s) \<and>
     keys_of (neighbors_combined_1d s) = keys_of (data_1d s) \<union> keys_of (data_interp_1d s) \<and>
     (\<forall>e\<in>set (data_interp_1d s). snd e \<noteq> None) \<and>
     (\<forall>k\<in>keys_of (neighbors_combined_1d s). fst (bbox_x_1d s) \<le> k \<and> k \<le> snd (bbox_x_1d s)) \<and>
     fst (scale_1d s) = Fin (snd (bbox_x_1d s) - fst (bbox_x_1d s))"


section \<open>Double-precision arithmetic\<close>

text \<open>
  The arithmetic of Python floats gives the exact result rounded to the nearest double
  (53 significant bits, ties to the even neighbour). \<open>fl\<close> is that rounding; the
  exponent range is not modelled (no overflow, no subnormal numbers).
\<close>

definition round_half_even :: "real \<Rightarrow> int" where
  "round_half_even y =
     (let r = \<lfloor>y\<rfloor>; f = y - of_int r
      in if f < 1 / 2 then r else if 1 / 2 < f then r + 1 else if even r then r else r + 1)"

text \<open>The power \<open>2 ** e\<close> and the binary exponent of a number.\<close>

definition pow2 :: "int \<Rightarrow> real" where
  "pow2 e = (if 0 \<le> e then 2 ^ nat e else 1 / 2 ^ nat (- e))"

definition binexp :: "real \<Rightarrow> int" where
  "binexp x = \<lfloor>log 2 \<bar>x\<bar>\<rfloor>"

definition fl :: "real \<Rightarrow> real" where
  "fl x = (if x = 0 then 0
           else of_int (round_half_even (x / pow2 (binexp x - 52))) * pow2 (binexp x - 52))"

text \<open>\<open>math.sqrt\<close> on floats.\<close>

definition py_sqrt_fl :: "real \<Rightarrow> py_error + real" where
  "py_sqrt_fl x = (if x < 0 then Inl ValueError else Inr (fl (sqrt x)))"

text \<open>
  \<open>AverageLearner.add_point\<close>, \<open>mean\<close> and \<open>std\<close> as they run on floats: every sum,
  product and quotient is rounded (\<open>value**2\<close> is the rounded square).
\<close>

definition add_point_avg_fl :: "int \<Rightarrow> real option \<Rightarrow> average_learner \<Rightarrow> average_learner" where
  "add_point_avg_fl k v s =
     (let s1 = s\<lparr> data_avg := (data_avg s)(k \<mapsto> v) \<rparr>
      in case v of
           None \<Rightarrow> s1\<lparr> n_requested_avg := n_requested_avg s1 + 1 \<rparr>
         | Some y \<Rightarrow> s1\<lparr> n_avg := n_avg s1 + 1,
                          sum_f_avg := fl (sum_f_avg s1 + y),
                          sum_f_sq_avg := fl (sum_f_sq_avg s1 + fl (y * y)) \<rparr>)"

definition add_points_avg_fl :: "(int \<times> real option) list \<Rightarrow> average_learner \<Rightarrow> average_learner" where
  "add_points_avg_fl ops s = foldl (\<lambda>t (x, y). add_point_avg_fl x y t) s ops"

definition mean_avg_fl :: "average_learner \<Rightarrow> py_error + real" where
  "mean_avg_fl s =
     (if n_avg s = 0 then Inl ZeroDivisionError
      else Inr (fl (sum_f_avg s / real_of_int (n_avg s))))"

definition std_avg_fl :: "average_learner \<Rightarrow> py_error + pyfloat" where
  "std_avg_fl s =
     (if n_avg s < 2 then Inr PInf
      else case mean_avg_fl s of
             Inl e \<Rightarrow> Inl e
           | Inr m \<Rightarrow>
               (case py_sqrt_fl (fl (fl (sum_f_sq_avg s - fl (real_of_int (n_avg s) * fl (m * m)))
                                    / real_of_int (n_avg s - 1))) of
                  Inl e \<Rightarrow> Inl e
                | Inr r \<Rightarrow> Inr (Fin r)))"

section \<open>Properties of the averaging learner\<close>

lemma add_points_avg_Cons:
  "add_points_avg ((k, v) # ops) s = add_points_avg ops (add_point_avg k v s)"
  by (simp add: add_points_avg_def)

lemma add_points_avg_sums:
  "n_avg (add_points_avg ops s) = n_avg s + int (length (observed ops)) \<and>
   sum_f_avg (add_points_avg ops s) = sum_f_avg s + sum_list (observed ops) \<and>
   sum_f_sq_avg (add_points_avg ops s) = sum_f_sq_avg s + (\<Sum>v\<leftarrow>observed ops. v\<^sup>2)"
proof (induction ops arbitrary: s rule: observed.induct)
  case 1
  show ?case by (simp add: add_points_avg_def)
next
  case (2 k ops)
  show ?case
    using "2.IH" [of "add_point_avg k None s"]
    by (simp add: add_points_avg_Cons add_point_avg_def)
next
  case (3 k v ops)
  show ?case
    using "3.IH" [of "add_point_avg k (Some v) s"]
    by (simp add: add_points_avg_Cons add_point_avg_def)
qed

lemma sum_sq_shift:
  fixes ws :: "real list"
  shows "(\<Sum>v\<leftarrow>ws. (v - c)\<^sup>2) = (\<Sum>v\<leftarrow>ws. v\<^sup>2) - 2 * c * sum_list ws + real (length ws) * c\<^sup>2"
  by (induction ws) (simp_all add: power2_diff algebra_simps)

lemma sum_sq_dev:
  fixes vs :: "real list"
  assumes "vs \<noteq> []"
  shows "(\<Sum>v\<leftarrow>vs. (v - sum_list vs / real (length vs))\<^sup>2)
         = (\<Sum>v\<leftarrow>vs. v\<^sup>2) - real (length vs) * (sum_list vs / real (length vs))\<^sup>2"
proof -
  define m where "m = sum_list vs / real (length vs)"
  have len: "real (length vs) \<noteq> 0" using assms by simp
  have sl: "sum_list vs = real (length vs) * m" using len by (simp add: m_def)
  have "(\<Sum>v\<leftarrow>vs. (v - m)\<^sup>2) = (\<Sum>v\<leftarrow>vs. v\<^sup>2) - 2 * m * (real (length vs) * m) + real (length vs) * m\<^sup>2"
    using sum_sq_shift [of m vs] by (simp only: sl [symmetric])
  also have "\<dots> = (\<Sum>v\<leftarrow>vs. v\<^sup>2) - real (length vs) * m\<^sup>2"
    by (simp add: power2_eq_square algebra_simps)
  finally show ?thesis by (simp add: m_def)
qed

text \<open>
  In exact arithmetic the running sums give the textbook values. Start from a freshly
  constructed averaging learner and run any sequence of \<open>add_point\<close> calls; let \<open>vs\<close>
  be the real (not pending) values among them. With at least two of them, \<open>mean\<close> is
  their arithmetic mean and \<open>std\<close> their Bessel-corrected sample standard deviation;
  with fewer than two, \<open>loss\<close> returns \<open>+inf\<close> for either value of \<open>real\<close>.
\<close>

lemma average_mean_std_exact:
  assumes init: "init_average a r = Inr s0"
    and vs: "vs = observed ops"
  shows "(2 \<le> length vs \<longrightarrow>
            mean_avg (add_points_avg ops s0) = Inr (sum_list vs / real (length vs)) \<and>
            std_avg (add_points_avg ops s0)
              = Inr (Fin (sqrt ((\<Sum>v\<leftarrow>vs. (v - sum_list vs / real (length vs))\<^sup>2) / (real (length vs) - 1))))) \<and>
         (length vs < 2 \<longrightarrow> loss_avg rl (add_points_avg ops s0) = Inr PInf)"
proof -
  define s where "s = add_points_avg ops s0"
  have s0: "n_avg s0 = 0" "sum_f_avg s0 = 0" "sum_f_sq_avg s0 = 0"
    using init by (auto simp: init_average_def split: if_splits)
  have nn: "n_avg s = int (length vs)"
    and sf: "sum_f_avg s = sum_list vs"
    and sq: "sum_f_sq_avg s = (\<Sum>v\<leftarrow>vs. v\<^sup>2)"
    using add_points_avg_sums [of ops s0] by (simp_all add: s_def vs s0)
  have small: "length vs < 2 \<Longrightarrow> loss_avg rl s = Inr PInf"
    by (simp add: loss_avg_def nn)
  have big: "mean_avg s = Inr (sum_list vs / real (length vs)) \<and>
      std_avg s = Inr (Fin (sqrt ((\<Sum>v\<leftarrow>vs. (v - sum_list vs / real (length vs))\<^sup>2) / (real (length vs) - 1))))"
    if two: "2 \<le> length vs"
  proof -
    have ne: "vs \<noteq> []" using two by (cases vs) simp_all
    have m: "mean_avg s = Inr (sum_list vs / real (length vs))"
      using ne by (simp add: mean_avg_def nn sf)
    have dev: "(\<Sum>v\<leftarrow>vs. v\<^sup>2) - real (length vs) * (sum_list vs / real (length vs))\<^sup>2
         = (\<Sum>v\<leftarrow>vs. (v - sum_list vs / real (length vs))\<^sup>2)"
      using sum_sq_dev [OF ne] by simp
    have nonneg: "0 \<le> (\<Sum>v\<leftarrow>vs. (v - sum_list vs / real (length vs))\<^sup>2)"
      by (rule sum_list_nonneg) auto
    have den: "real_of_int (int (length vs) - 1) = real (length vs) - 1" by simp
    have pos: "0 < real (length vs) - 1" using two by simp
    have "std_avg s = Inr (Fin (sqrt ((\<Sum>v\<leftarrow>vs. (v - sum_list vs / real (length vs))\<^sup>2) / (real (length vs) - 1))))"
      using two nonneg pos
      by (simp add: std_avg_def m nn sq dev den py_sqrt_def not_less divide_nonneg_pos del: of_int_diff)
    with m show ?thesis by simp
  qed
  show ?thesis using small big by (simp add: s_def)
qed

text \<open>
  Two instances: the values 1 and 3 (with a pending request in between) give mean 2 and
  standard deviation \<open>sqrt 2\<close>; a single value gives loss \<open>+inf\<close>.
\<close>

lemma average_mean_std_exact_instances:
  "init_average (Some (Fin (1/10))) None \<noteq> Inl ConfigError \<and>
   mean_avg (add_points_avg [(0, Some 1), (1, None), (2, Some 3)]
      \<lparr> data_avg = Map.empty, atol_avg = Fin (1/10), rtol_avg = PInf,
        n_avg = 0, n_requested_avg = 0, sum_f_avg = 0, sum_f_sq_avg = 0 \<rparr>) = Inr 2 \<and>
   std_avg (add_points_avg [(0, Some 1), (1, None), (2, Some 3)]
      \<lparr> data_avg = Map.empty, atol_avg = Fin (1/10), rtol_avg = PInf,
        n_avg = 0, n_requested_avg = 0, sum_f_avg = 0, sum_f_sq_avg = 0 \<rparr>) = Inr (Fin (sqrt 2)) \<and>
   loss_avg True (add_points_avg [(0, Some 1), (1, None)]
      \<lparr> data_avg = Map.empty, atol_avg = Fin (1/10), rtol_avg = PInf,
        n_avg = 0, n_requested_avg = 0, sum_f_avg = 0, sum_f_sq_avg = 0 \<rparr>) = Inr PInf"
proof -
  have i: "init_average (Some (Fin (1/10))) None = Inr \<lparr> data_avg = Map.empty, atol_avg = Fin (1/10), rtol_avg = PInf,
        n_avg = 0, n_requested_avg = 0, sum_f_avg = 0, sum_f_sq_avg = 0 \<rparr>"
    by (simp add: init_average_def)
  show ?thesis
    using average_mean_std_exact [OF i, of "[1, 3]" "[(0, Some 1), (1, None), (2, Some 3)]" True]
          average_mean_std_exact [OF i, of "[1]" "[(0, Some 1), (1, None)]" True]
    by (simp add: i)
qed

text \<open>
  Claim C7, evaluated on the code: with \<open>atol = 0.1\<close> and the observations 1 and -1 the
  mean is zero, and \<open>standard_error / abs(self.mean)\<close> raises \<open>ZeroDivisionError\<close>.
\<close>

theorem average_loss_zero_mean_raises:
  "loss_avg True (add_points_avg [(0, Some 1), (1, Some (- 1))]
      \<lparr> data_avg = Map.empty, atol_avg = Fin (1/10), rtol_avg = PInf,
        n_avg = 0, n_requested_avg = 0, sum_f_avg = 0, sum_f_sq_avg = 0 \<rparr>) = Inl ZeroDivisionError"
  by (simp add: loss_avg_def std_avg_def mean_avg_def py_sqrt_def add_points_avg_def add_point_avg_def)

text \<open>
  Claim C6, evaluated on the code: after \<open>choose_points(1)\<close> on a fresh averaging learner,
  \<open>remove_unfinished()\<close> leaves the pending entry for index 0 in \<open>data\<close>.
\<close>

theorem average_remove_unfinished_keeps_pending:
  "data_avg (remove_unfinished_avg (snd (choose_points_avg 1 True
      \<lparr> data_avg = Map.empty, atol_avg = Fin (1/10), rtol_avg = PInf,
        n_avg = 0, n_requested_avg = 0, sum_f_avg = 0, sum_f_sq_avg = 0 \<rparr>))) 0 = Some None"
  by (simp add: remove_unfinished_avg_def choose_points_avg_def add_data_avg_def add_point_avg_def upto.simps)

section \<open>Properties of the 1-D learner\<close>

text \<open>Unfolding sets that evaluate the model on concrete inputs.\<close>

lemmas eval_1d = add_point_1d_def update_neighbors_def find_neighbors_def bisect_left_def
  set_upper_def set_lower_def update_scale_def interpolate_def update_losses_def interval_loss_def
  data_combined_1d_def dict_merge_def dict_del_def scale_doubled_def as_list_def init_1d_def
  pf_sq_def pf_sub_def pf_min_def pf_max_def Let_def

lemmas eval_choose = choose_points_1d_def py_take_def linspace_def heapify_def heapreplace_def
  siftup_def points_1d_def

text \<open>
  Claim C1, evaluated on the code. On a fresh 1-D learner with bounds \<open>(0, 1)\<close>,
  \<open>choose_points(1, add_data=True)\<close> returns the point 0 and leaves the learner as it
  was: 0 is neither in \<open>data\<close> nor in \<open>data_interp\<close>. Once both bounds hold values,
  \<open>choose_points(1, add_data=True)\<close> raises \<open>TypeError\<close>.
\<close>

theorem choose_points_1d_add_data_ignored:
  "choose_points_1d 1 True (init_1d (0, 1)) = Inr (Chosen [0] [PInf], init_1d (0, 1)) \<and>
   map_of (data_interp_1d (init_1d (0, 1))) 0 = None \<and>
   map_of (data_1d (init_1d (0, 1))) 0 = None \<and>
   (case add_points_1d [(0, Some 0), (1, Some 0)] (init_1d (0, 1)) of
      Inl e \<Rightarrow> False
    | Inr s \<Rightarrow> choose_points_1d 1 True s = Inl TypeError)"
  by (simp add: eval_1d eval_choose)

text \<open>
  Claim C2, evaluated on the code. With only the lower bound observed,
  \<open>choose_points(2)\<close> returns one point and two loss improvements; with both bounds
  observed, \<open>choose_points(1)\<close> returns one point and two loss improvements.
\<close>

theorem choose_points_1d_lengths_differ:
  "(case add_points_1d [(0, Some 0)] (init_1d (0, 1)) of
      Inl e \<Rightarrow> False
    | Inr s \<Rightarrow> choose_points_1d 2 False s = Inr (Chosen [1] [PInf, PInf], s)) \<and>
   (case add_points_1d [(0, Some 0), (1, Some 0)] (init_1d (0, 1)) of
      Inl e \<Rightarrow> False
    | Inr s \<Rightarrow> choose_points_1d 1 False s = Inr (Chosen [1 / 2] [Fin (1 / 2), Fin (1 / 2)], s))"
  by (simp add: eval_1d eval_choose numeral_2_eq_2)

lemma scale_doubled_iff:
  assumes "scale_1d s = (Fin sx, Fin sy)" and "oldscale_1d s = (Fin ox, Fin oy)"
  shows "scale_doubled s \<longleftrightarrow> ox < sx \<or> (sx = ox \<and> oy < sy)"
  using assms by (auto simp: scale_doubled_def as_list_def)

text \<open>
  Claim C5, evaluated on the code. After the points \<open>(0, 0)\<close> and \<open>(1/2, 1)\<close> the scale and
  the reference scale are \<open>[1, 1]\<close>. Adding \<open>(1, 3/2)\<close> makes the scale \<open>[1, 3/2]\<close>, which
  is not beyond twice the reference; the code yet resets the reference scale and
  recomputes the loss of the interval \<open>(0, 1/2)\<close>, which is not adjacent to the new point.
\<close>

theorem add_point_1d_recompute_without_doubling:
  "(case add_points_1d [(0, Some 0), (1 / 2, Some 1)] (init_1d (0, 1)) of
      Inl e \<Rightarrow> False
    | Inr s \<Rightarrow>
        scale_1d s = (Fin 1, Fin 1) \<and> oldscale_1d s = (Fin 1, Fin 1) \<and>
        map_of (losses_1d s) (0, 1 / 2) = Some (Fin (sqrt (5 / 4))) \<and>
        (case add_point_1d 1 (Some (3 / 2)) s of
           Inl e \<Rightarrow> False
         | Inr s' \<Rightarrow>
             scale_1d s' = (Fin 1, Fin (3 / 2)) \<and> oldscale_1d s' = (Fin 1, Fin (3 / 2)) \<and>
             map_of (losses_1d s') (0, 1 / 2) = Some (Fin (sqrt (25 / 36)))))"
  by (simp add: eval_1d)

section \<open>Properties of snapshot and restore\<close>

lemma restore_fold:
  "l \<in> set ls \<Longrightarrow>
   foldl (\<lambda>hh (state, learner). setstate state learner hh) h1 (zip (map (getstate h) ls) ls) l = h l"
proof (induction ls rule: rev_induct)
  case Nil
  then show ?case by simp
next
  case (snoc x xs)
  show ?case
  proof (cases "l = x")
    case True
    then show ?thesis by (simp add: setstate_def getstate_def)
  next
    case False
    with snoc show ?thesis by (simp add: setstate_def)
  qed
qed

text \<open>
  Claim C9. Whatever the body does to the store (any sequence of \<open>add_point\<close> calls on
  any learner) and however it ends (a returned value or an exception), after the
  \<open>restore\<close> block every learner passed to it has the state it had before, hence the
  same data and the same loss; the outcome of the body is passed on unchanged.
\<close>

theorem restore_unconditional:
  "(\<forall>l \<in> set learners. snd (restore learners body h) l = h l) \<and>
   fst (restore learners body h) = fst (body h)"
  by (auto simp: restore_def restore_fold split: prod.splits)

text \<open>
  Witness for C9: two averaging learners, a body that adds an observation to the first
  and then raises; both learners end with their empty \<open>data\<close>, and the exception is
  passed on.
\<close>

theorem restore_unconditional_witness:
  "data_avg (snd (restore [0, 1]
        (\<lambda>h. (Inl ValueError :: py_error + unit, h(0 := add_points_avg [(0, Some 1)] (h 0))))
        (\<lambda>l. \<lparr> data_avg = Map.empty, atol_avg = Fin 1, rtol_avg = PInf, n_avg = 0,
                n_requested_avg = 0, sum_f_avg = 0, sum_f_sq_avg = 0 \<rparr>)) 0) = Map.empty \<and>
   data_avg (snd (restore [0, 1]
        (\<lambda>h. (Inl ValueError :: py_error + unit, h(0 := add_points_avg [(0, Some 1)] (h 0))))
        (\<lambda>l. \<lparr> data_avg = Map.empty, atol_avg = Fin 1, rtol_avg = PInf, n_avg = 0,
                n_requested_avg = 0, sum_f_avg = 0, sum_f_sq_avg = 0 \<rparr>)) 1) = Map.empty \<and>
   data_avg (add_points_avg [(0, Some 1)]
        \<lparr> data_avg = Map.empty, atol_avg = Fin 1, rtol_avg = PInf, n_avg = 0,
          n_requested_avg = 0, sum_f_avg = 0, sum_f_sq_avg = 0 \<rparr>) 0 = Some (Some 1) \<and>
   fst (restore [0, 1]
        (\<lambda>h. (Inl ValueError :: py_error + unit, h(0 := add_points_avg [(0, Some 1)] (h 0))))
        (\<lambda>l. \<lparr> data_avg = Map.empty, atol_avg = Fin 1, rtol_avg = PInf, n_avg = 0,
                n_requested_avg = 0, sum_f_avg = 0, sum_f_sq_avg = 0 \<rparr>)) = Inl ValueError"
  using restore_unconditional [of "[0, 1]"
        "\<lambda>h. (Inl ValueError :: py_error + unit, h(0 := add_points_avg [(0, Some 1)] (h 0)))"
        "\<lambda>l. \<lparr> data_avg = Map.empty, atol_avg = Fin 1, rtol_avg = PInf, n_avg = 0,
                n_requested_avg = 0, sum_f_avg = 0, sum_f_sq_avg = 0 \<rparr>"]
  by (simp add: add_points_avg_def add_point_avg_def)

section \<open>Properties of the 2-D learner\<close>

text \<open>
  Claim C4, evaluated on the code. On the unit square, mark the four corners pending (as
  \<open>choose_points(4)\<close> does through \<open>add_data\<close>) and call \<open>remove_unfinished()\<close>. No
  corner is then sampled, pending or on the stack, yet \<open>bounds_are_done\<close> is true:
  \<open>loss\<close> does not return \<open>+inf\<close> from its guard but goes on to interpolate the empty
  data and returns whatever that gives (numpy and scipy raise on an empty point set).
\<close>

theorem loss_2d_after_remove_unfinished:
  "bounds_are_done (remove_unfinished_2d (add_points_2d
       [((0, 0), None), ((0, 1), None), ((1, 0), None), ((1, 1), None)] (init_2d ((0, 1), (0, 1))))) \<and>
   data_2d (remove_unfinished_2d (add_points_2d
       [((0, 0), None), ((0, 1), None), ((1, 0), None), ((1, 1), None)] (init_2d ((0, 1), (0, 1))))) = [] \<and>
   interp_2d (remove_unfinished_2d (add_points_2d
       [((0, 0), None), ((0, 1), None), ((1, 0), None), ((1, 1), None)] (init_2d ((0, 1), (0, 1))))) = [] \<and>
   stack_2d (remove_unfinished_2d (add_points_2d
       [((0, 0), None), ((0, 1), None), ((1, 0), None), ((1, 1), None)] (init_2d ((0, 1), (0, 1))))) = [] \<and>
   loss_2d lpt ev True (remove_unfinished_2d (add_points_2d
       [((0, 0), None), ((0, 1), None), ((1, 0), None), ((1, 1), None)] (init_2d ((0, 1), (0, 1)))))
     = (case lpt [] of Inl e \<Rightarrow> Inl e | Inr losses \<Rightarrow> np_max losses)"
  by (simp add: loss_2d_def bounds_are_done_def remove_unfinished_2d_def add_points_2d_def
        add_point_2d_def init_2d_def dict_del_def ip_def)

section \<open>Properties of the point placement in a triangle\<close>

lemma argmax3:
  "argmax [e0, e1, e2] =
     (if e0 < e1 then (if e1 < e2 then 2 else 1) else (if e0 < e2 then 2 else 0))"
  by (simp add: argmax_def numeral_2_eq_2)

lemma norm2_sub2: "norm2 (sub2 p q) = sqrt (dist_sq p q)"
  by (simp add: norm2_def sub2_def dist_sq_def)

lemma dist_sq_nonneg: "0 \<le> dist_sq p q"
  by (simp add: dist_sq_def)

lemma dist_sq_commute: "dist_sq p q = dist_sq q p"
  by (simp add: dist_sq_def power2_commute)

lemma area_cross: "0.5 * cross2 (sub2 b a) (sub2 c a) = triangle_area a b c"
  by (simp add: cross2_def sub2_def triangle_area_def)

lemma equilateral_area:
  fixes ux uy vx vy d :: real
  assumes u: "ux\<^sup>2 + uy\<^sup>2 = d" and v: "vx\<^sup>2 + vy\<^sup>2 = d"
    and w: "(ux - vx)\<^sup>2 + (uy - vy)\<^sup>2 = d"
  shows "4 * (ux * vy - uy * vx)\<^sup>2 = 3 * d\<^sup>2"
proof -
  have dot: "2 * (ux * vx + uy * vy) = d"
    using u v w by (simp add: power2_diff algebra_simps)
  have lagrange: "(ux * vy - uy * vx)\<^sup>2 = (ux\<^sup>2 + uy\<^sup>2) * (vx\<^sup>2 + vy\<^sup>2) - (ux * vx + uy * vy)\<^sup>2"
    by (simp add: power2_eq_square algebra_simps)
  have "4 * (ux * vy - uy * vx)\<^sup>2 = 4 * d * d - (2 * (ux * vx + uy * vy))\<^sup>2"
    unfolding lagrange u v by (simp add: power2_eq_square algebra_simps)
  also have "\<dots> = 3 * d\<^sup>2" unfolding dot by (simp add: power2_eq_square)
  finally show ?thesis .
qed


lemma edge_choice:
  fixes d0 d1 d2 :: real
  assumes "0 \<le> d0" "0 \<le> d1" "0 \<le> d2"
  defines "i \<equiv> argmax [sqrt d0, sqrt d1, sqrt d2]"
  shows "([sqrt d0, sqrt d1, sqrt d2] ! i)\<^sup>2 = max d1 (max d2 d0) \<and>
         ((i = 0 \<and> d0 = max d1 (max d2 d0)) \<or>
          (i = 1 \<and> d1 = max d1 (max d2 d0)) \<or>
          (i = 2 \<and> d2 = max d1 (max d2 d0)))"
  using assms(1-3) unfolding i_def argmax3
  by (auto simp: max_def)

lemma badness_eq:
  assumes "triangle_area a b c \<noteq> 0"
  shows "badness (a, b, c) = Fin (badness_spec a b c)"
proof -
  have sq: "([sqrt (dist_sq a c), sqrt (dist_sq b a), sqrt (dist_sq c b)]
              ! argmax [sqrt (dist_sq a c), sqrt (dist_sq b a), sqrt (dist_sq c b)])\<^sup>2
            = longest_edge_sq a b c"
    using edge_choice [of "dist_sq a c" "dist_sq b a" "dist_sq c b"]
    by (simp add: dist_sq_nonneg longest_edge_sq_def dist_sq_commute [of a b]
          dist_sq_commute [of b c] dist_sq_commute [of c a])
  have "badness (a, b, c) = pf_mul (np_div (longest_edge_sq a b c) (triangle_area a b c)) (Fin (sqrt 3 / 4))"
    unfolding badness_def Let_def prod.case area_cross
    by (simp add: norm2_sub2 sq)
  then show ?thesis
    using assms by (simp add: np_div_def badness_spec_def)
qed

lemma chosen_midpoint:
  "longest_edge_midpoint a b c
     (let triangle = [a, b, c]; triangle_roll = [c, a, b];
          i = argmax [sqrt (dist_sq a c), sqrt (dist_sq b a), sqrt (dist_sq c b)]
      in ((fst (triangle_roll ! i) + fst (triangle ! i)) / 2,
          (snd (triangle_roll ! i) + snd (triangle ! i)) / 2))"
proof -
  let ?L = "max (dist_sq b a) (max (dist_sq c b) (dist_sq a c))"
  have L: "longest_edge_sq a b c = ?L"
    by (simp add: longest_edge_sq_def dist_sq_commute [of a b]
          dist_sq_commute [of b c] dist_sq_commute [of c a])
  consider (e0) "argmax [sqrt (dist_sq a c), sqrt (dist_sq b a), sqrt (dist_sq c b)] = 0"
                "dist_sq a c = ?L"
    | (e1) "argmax [sqrt (dist_sq a c), sqrt (dist_sq b a), sqrt (dist_sq c b)] = 1"
           "dist_sq b a = ?L"
    | (e2) "argmax [sqrt (dist_sq a c), sqrt (dist_sq b a), sqrt (dist_sq c b)] = 2"
           "dist_sq c b = ?L"
    using edge_choice [of "dist_sq a c" "dist_sq b a" "dist_sq c b"]
    by (auto simp: dist_sq_nonneg)
  then show ?thesis
  proof cases
    case e0
    then show ?thesis
      by (simp add: longest_edge_midpoint_def midpoint2_def L dist_sq_commute [of c a])
  next
    case e1
    then show ?thesis
      by (simp add: longest_edge_midpoint_def midpoint2_def L dist_sq_commute [of a b])
  next
    case e2
    then show ?thesis
      by (simp add: longest_edge_midpoint_def midpoint2_def L dist_sq_commute [of b c])
  qed
qed

lemma equilateral_badness:
  assumes eq: "equilateral a b c" and pos: "0 < triangle_area a b c"
  shows "badness_spec a b c = 1"
proof -
  define d where "d = dist_sq a b"
  have dbc: "dist_sq b c = d" and dca: "dist_sq c a = d"
    using eq by (simp_all add: equilateral_def d_def)
  have L: "longest_edge_sq a b c = d"
    by (simp add: longest_edge_sq_def dbc dca d_def [symmetric])
  define A where "A = triangle_area a b c"
  have A2: "2 * A = (fst b - fst a) * (snd c - snd a) - (snd b - snd a) * (fst c - fst a)"
    by (simp add: A_def triangle_area_def)
  have "4 * ((fst b - fst a) * (snd c - snd a) - (snd b - snd a) * (fst c - fst a))\<^sup>2 = 3 * d\<^sup>2"
  proof (rule equilateral_area)
    show "(fst b - fst a)\<^sup>2 + (snd b - snd a)\<^sup>2 = d"
      by (simp add: d_def dist_sq_def power2_commute)
    show "(fst c - fst a)\<^sup>2 + (snd c - snd a)\<^sup>2 = d"
      using dca by (simp add: dist_sq_def)
    show "(fst b - fst a - (fst c - fst a))\<^sup>2 + (snd b - snd a - (snd c - snd a))\<^sup>2 = d"
      using dbc by (simp add: dist_sq_def)
  qed
  then have "16 * A\<^sup>2 = 3 * d\<^sup>2"
    unfolding A2 [symmetric] by (simp add: power2_eq_square)
  then have sq: "(4 * A)\<^sup>2 = (sqrt 3 * d)\<^sup>2"
    by (simp add: power_mult_distrib)
  have dn: "0 \<le> d" by (simp add: d_def dist_sq_nonneg)
  have Ap: "0 < A" using pos by (simp add: A_def)
  have "4 * A = sqrt 3 * d"
  proof (rule power2_eq_imp_eq [OF sq])
    show "0 \<le> 4 * A" using Ap by simp
    show "0 \<le> sqrt 3 * d" using dn by simp
  qed
  then have A4: "A = sqrt 3 * d / 4" by simp
  have dp: "d \<noteq> 0"
  proof
    assume "d = 0"
    then have "A = 0" using A4 by simp
    with Ap show False by simp
  qed
  have "d / A * (sqrt 3 / 4) = 1"
    unfolding A4 using dp by simp
  then show ?thesis
    unfolding badness_spec_def L A_def .
qed

text \<open>
  In exact arithmetic and for a triangle of positive orientation (counter-clockwise
  corners) the code follows its docstring: the badness is the squared length of the
  longest edge over the area, times \<open>sqrt 3 / 4\<close>; if it exceeds 5 the chosen point is
  the midpoint of an edge of greatest length, otherwise it is the centroid; and an
  equilateral triangle has badness 1.
\<close>

lemma choose_point_in_triangle_ccw:
  assumes "0 < triangle_area a b c"
  shows "badness (a, b, c) = Fin (badness_spec a b c) \<and>
         (if 5 < badness_spec a b c
          then longest_edge_midpoint a b c (choose_point_in_triangle (a, b, c) 5)
          else choose_point_in_triangle (a, b, c) 5 = centroid a b c) \<and>
         (equilateral a b c \<longrightarrow> badness_spec a b c = 1)"
proof -
  have b: "badness (a, b, c) = Fin (badness_spec a b c)"
    using assms by (simp add: badness_eq)
  have "longest_edge_midpoint a b c (choose_point_in_triangle (a, b, c) 5)"
    if "5 < badness_spec a b c"
    using that chosen_midpoint [of a b c]
    by (simp add: choose_point_in_triangle_def b Let_def norm2_sub2)
  moreover have "choose_point_in_triangle (a, b, c) 5 = centroid a b c"
    if "\<not> 5 < badness_spec a b c"
    using that by (simp add: choose_point_in_triangle_def b Let_def centroid_def)
  ultimately show ?thesis
    using b equilateral_badness [OF _ assms] by simp
qed


text \<open>
  Two instances: the equilateral triangle \<open>(0, 0), (2, 0), (1, sqrt 3)\<close> has badness 1
  and gets its centroid; the counter-clockwise sliver \<open>(0, 0), (10, 0), (0, 1)\<close> has a
  badness above 5 and gets the midpoint \<open>(5, 1/2)\<close> of its longest edge.
\<close>

lemma choose_point_in_triangle_ccw_instances:
  "0 < triangle_area (0, 0) (2, 0) (1, sqrt 3) \<and> equilateral (0, 0) (2, 0) (1, sqrt 3) \<and>
   badness ((0, 0), (2, 0), (1, sqrt 3)) = Fin 1 \<and>
   choose_point_in_triangle ((0, 0), (2, 0), (1, sqrt 3)) 5 = (1, sqrt 3 / 3) \<and>
   0 < triangle_area (0, 0) (10, 0) (0, 1) \<and>
   5 < badness_spec (0, 0) (10, 0) (0, 1) \<and>
   choose_point_in_triangle ((0, 0), (10, 0), (0, 1)) 5 = (5, 1 / 2)"
proof -
  have a1: "0 < triangle_area (0, 0) (2, 0) (1, sqrt 3)"
    by (simp add: triangle_area_def)
  have e1: "equilateral (0, 0) (2, 0) (1, sqrt 3)"
    by (simp add: equilateral_def dist_sq_def)
  have a2: "0 < triangle_area (0, 0) (10, 0) (0, 1)"
    by (simp add: triangle_area_def)
  have l2: "longest_edge_sq (0, 0) (10, 0) (0, 1) = 101"
    by (simp add: longest_edge_sq_def dist_sq_def)
  have s3: "1 < sqrt 3" by simp
  have "100 < 101 * sqrt 3" using s3 by linarith
  then have b2: "5 < badness_spec (0, 0) (10, 0) (0, 1)"
    by (simp add: badness_spec_def l2 triangle_area_def)
  show ?thesis
    using choose_point_in_triangle_ccw [OF a1] choose_point_in_triangle_ccw [OF a2] a1 e1 a2 b2
    by (simp add: centroid_def longest_edge_midpoint_def midpoint2_def l2 dist_sq_def)
qed

text \<open>
  The code divides by the signed area \<open>0.5 * np.cross(b - a, c - a)\<close>: for a triangle
  given clockwise the badness is not positive and the centroid is chosen whatever the
  shape.
\<close>

lemma choose_point_clockwise:
  assumes "triangle_area a b c < 0"
  shows "choose_point_in_triangle (a, b, c) 5 = centroid a b c"
proof -
  have b: "badness (a, b, c) = Fin (badness_spec a b c)"
    using assms by (simp add: badness_eq)
  have "0 \<le> longest_edge_sq a b c"
    by (simp add: longest_edge_sq_def dist_sq_nonneg le_max_iff_disj)
  then have "longest_edge_sq a b c / triangle_area a b c \<le> 0"
    using assms by (simp add: divide_nonneg_neg)
  moreover have "0 \<le> sqrt 3 / 4" by simp
  ultimately have "longest_edge_sq a b c / triangle_area a b c * (sqrt 3 / 4) \<le> 0"
    by (rule mult_nonpos_nonneg)
  then have "badness_spec a b c \<le> 0"
    unfolding badness_spec_def .
  then show ?thesis
    by (simp add: choose_point_in_triangle_def b Let_def centroid_def)
qed

text \<open>
  Claim C8, evaluated on the code. The sliver \<open>(0, 0), (0, 1), (10, 0)\<close> is given
  clockwise. Its longest edge squared over its area, times \<open>sqrt 3 / 4\<close>, is above 5, so
  the docstring and the claim ask for the midpoint \<open>(5, 1/2)\<close> of the longest edge. The
  code divides by the signed area \<open>0.5 * np.cross(b - a, c - a)\<close>, which is \<open>-5\<close> here:
  the badness is negative and the centroid is returned.
\<close>

theorem choose_point_in_triangle_clockwise_sliver:
  "triangle_area (0, 0) (0, 1) (10, 0) = - 5 \<and>
   longest_edge_sq (0, 0) (0, 1) (10, 0) = 101 \<and>
   5 < longest_edge_sq (0, 0) (0, 1) (10, 0) / \<bar>triangle_area (0, 0) (0, 1) (10, 0)\<bar> * (sqrt 3 / 4) \<and>
   badness ((0, 0), (0, 1), (10, 0)) = Fin (- (101 / 5 * (sqrt 3 / 4))) \<and>
   choose_point_in_triangle ((0, 0), (0, 1), (10, 0)) 5 = (10 / 3, 1 / 3) \<and>
   midpoint2 (0, 1) (10, 0) = (5, 1 / 2)"
proof -
  have a: "triangle_area (0, 0) (0, 1) (10, 0) = - 5"
    by (simp add: triangle_area_def)
  have l: "longest_edge_sq (0, 0) (0, 1) (10, 0) = 101"
    by (simp add: longest_edge_sq_def dist_sq_def)
  have s3: "1 < sqrt 3" by simp
  have "100 < 101 * sqrt 3" using s3 by linarith
  then have g: "5 < longest_edge_sq (0, 0) (0, 1) (10, 0) / \<bar>triangle_area (0, 0) (0, 1) (10, 0)\<bar> * (sqrt 3 / 4)"
    by (simp add: a l)
  have b: "badness ((0, 0), (0, 1), (10, 0)) = Fin (- (101 / 5 * (sqrt 3 / 4)))"
    using badness_eq [of "(0, 0)" "(0, 1)" "(10, 0)"] by (simp add: a l badness_spec_def)
  have c: "choose_point_in_triangle ((0, 0), (0, 1), (10, 0)) 5 = (10 / 3, 1 / 3)"
    using choose_point_clockwise [of "(0, 0)" "(0, 1)" "(10, 0)"] by (simp add: a centroid_def)
  show ?thesis using a l g b c by (simp add: midpoint2_def)
qed

section \<open>Properties of the dictionaries\<close>

lemma keys_dict_set: "fst ` set (dict_set k v d) = insert k (fst ` set d)"
  by (induction k v d rule: dict_set.induct) (simp_all add: insert_commute)

lemma keys_of_dict_set: "keys_of (dict_set k v d) = insert k (keys_of d)"
  by (simp add: keys_of_def keys_dict_set)

lemma values_dict_set: "snd ` set (dict_set k v d) \<subseteq> insert v (snd ` set d)"
  by (induction k v d rule: dict_set.induct) (simp_all add: subset_iff, blast)

lemma distinct_dict_set: "distinct (map fst d) \<Longrightarrow> distinct (map fst (dict_set k v d))"
  by (induction k v d rule: dict_set.induct) (auto simp: keys_dict_set)

lemma keys_of_dict_del: "keys_of (dict_del k d) = keys_of d - {k}"
  by (auto simp: keys_of_def dict_del_def)

lemma distinct_dict_del: "distinct (map fst d) \<Longrightarrow> distinct (map fst (dict_del k d))"
  by (simp add: dict_del_def distinct_map_filter)

lemma set_dict_del: "set (dict_del k d) \<subseteq> set d"
  by (auto simp: dict_del_def)

lemma keys_of_dict_merge: "keys_of (dict_merge a b) = keys_of a \<union> keys_of b"
proof -
  have "keys_of (foldl (\<lambda>d (k, v). dict_set k v d) a b) = keys_of a \<union> keys_of b" for a
  proof (induction b arbitrary: a)
    case Nil
    show ?case by (simp add: keys_of_def)
  next
    case (Cons p b)
    obtain k v where p: "p = (k, v)" by (cases p)
    show ?case
      using Cons.IH [of "dict_set k v a"]
      by (simp add: p keys_of_dict_set) (simp add: keys_of_def)
  qed
  then show ?thesis by (simp add: dict_merge_def)
qed

lemma values_dict_merge: "snd ` set (dict_merge a b) \<subseteq> snd ` set a \<union> snd ` set b"
proof -
  have "snd ` set (foldl (\<lambda>d (k, v). dict_set k v d) a b) \<subseteq> snd ` set a \<union> snd ` set b" for a
  proof (induction b arbitrary: a)
    case Nil
    show ?case by simp
  next
    case (Cons p b)
    obtain k v where p: "p = (k, v)" by (cases p)
    have "snd ` set (foldl (\<lambda>d (k, v). dict_set k v d) (dict_set k v a) b)
            \<subseteq> snd ` set (dict_set k v a) \<union> snd ` set b"
      by (rule Cons.IH)
    also have "\<dots> \<subseteq> insert v (snd ` set a) \<union> snd ` set b"
      using values_dict_set [of k v a] by blast
    finally show ?case by (simp add: p)
  qed
  then show ?thesis by (simp add: dict_merge_def)
qed

lemma keys_sd_set: "fst ` set (sd_set k v d) = insert k (fst ` set d)"
  by (induction k v d rule: sd_set.induct) (simp_all add: insert_commute)

lemma keys_of_sd_set: "keys_of (sd_set k v d) = insert k (keys_of d)"
  by (simp add: keys_of_def keys_sd_set)

lemma set_sd_set_new: "k \<notin> fst ` set d \<Longrightarrow> set (sd_set k v d) = insert (k, v) (set d)"
  by (induction k v d rule: sd_set.induct) (simp_all add: insert_commute)

lemma sorted_sd_set:
  "sorted_wrt (<) (map fst d) \<Longrightarrow> sorted_wrt (<) (map fst (sd_set k v d))"
  by (induction k v d rule: sd_set.induct) (auto simp: keys_sd_set)

lemma map_of_keys: "map_of d k \<noteq> None \<longleftrightarrow> k \<in> keys_of d"
  by (simp add: keys_of_def map_of_eq_None_iff)

lemma sorted_distinct_keys:
  fixes ks :: "real list"
  shows "sorted_wrt (<) ks \<Longrightarrow> distinct ks"
  by (induction ks) auto

section \<open>Properties of the neighbour structures\<close>

lemma sorted_le_last:
  fixes ks :: "real list"
  shows "sorted_wrt (<) ks \<Longrightarrow> k \<in> set ks \<Longrightarrow> k \<le> last ks"
  by (induction ks) (auto simp: less_imp_le)

lemma sorted_hd_le:
  fixes ks :: "real list"
  shows "sorted_wrt (<) ks \<Longrightarrow> k \<in> set ks \<Longrightarrow> hd ks \<le> k"
  by (induction ks) (auto simp: less_imp_le)

lemma find_neighbors_spec:
  assumes srt: "sorted_wrt (<) (map fst nb)" and new: "x \<notin> keys_of nb"
  shows "is_pred (keys_of nb) (fst (find_neighbors x nb)) x \<and>
         is_succ (keys_of nb) (snd (find_neighbors x nb)) x"
proof -
  define ks where "ks = map fst nb"
  define as where "as = takeWhile (\<lambda>k. k < x) ks"
  define bs where "bs = dropWhile (\<lambda>k. k < x) ks"
  have ks: "ks = as @ bs" by (simp add: as_def bs_def)
  have K: "keys_of nb = set as \<union> set bs"
    using ks by (simp add: keys_of_def ks_def [symmetric] flip: set_map)
  have as_lt: "\<And>k. k \<in> set as \<Longrightarrow> k < x"
    unfolding as_def by (auto dest: set_takeWhileD)
  have s_as: "sorted_wrt (<) as" and s_bs: "sorted_wrt (<) bs"
    using srt by (simp_all add: ks_def [symmetric] ks sorted_wrt_append)
  have hd_bs: "bs \<noteq> [] \<Longrightarrow> \<not> hd bs < x"
    unfolding bs_def by (rule hd_dropWhile)
  have bs_ge: "x < k" if "k \<in> set bs" for k
  proof -
    have ne: "bs \<noteq> []" using that by auto
    have "hd bs \<le> k" using s_bs that by (rule sorted_hd_le)
    moreover have "x \<le> hd bs" using hd_bs [OF ne] by simp
    moreover have "k \<noteq> x" using that new K by auto
    ultimately show ?thesis by simp
  qed
  have pos: "bisect_left ks x = length as"
    by (simp add: bisect_left_def as_def)
  have fn: "find_neighbors x nb =
              (if length as \<noteq> 0 then Some (ks ! (length as - 1)) else None,
               if length as \<noteq> length ks then Some (ks ! length as) else None)"
    by (simp add: find_neighbors_def Let_def ks_def [symmetric] pos)
  have n1: "ks ! (length as - 1) = last as" if "as \<noteq> []"
    using that unfolding ks by (simp add: nth_append last_conv_nth)
  have n2: "ks ! length as = hd bs" if "bs \<noteq> []"
    using that unfolding ks by (cases bs) simp_all
  have n3: "length as \<noteq> length ks \<longleftrightarrow> bs \<noteq> []"
    unfolding ks by simp
  have lo: "fst (find_neighbors x nb) = (if as = [] then None else Some (last as))"
    unfolding fn using n1 by simp
  have up: "snd (find_neighbors x nb) = (if bs = [] then None else Some (hd bs))"
    unfolding fn n3 using n2 by simp
  have as_all: "\<forall>k\<in>set as. k < x" using as_lt by blast
  have bs_all: "\<forall>k\<in>set bs. x < k" using bs_ge by blast
  have p: "is_pred (keys_of nb) (fst (find_neighbors x nb)) x"
  proof (cases "as = []")
    case True
    then show ?thesis using bs_all by (auto simp: lo is_pred_def K)
  next
    case False
    have "\<forall>k\<in>set as. k \<le> last as"
      using s_as sorted_le_last by blast
    moreover have "last as \<in> set as" using False by simp
    ultimately show ?thesis
      using False bs_all as_all by (auto simp: lo is_pred_def K)
  qed
  have s: "is_succ (keys_of nb) (snd (find_neighbors x nb)) x"
  proof (cases "bs = []")
    case True
    then show ?thesis using as_all by (auto simp: up is_succ_def K)
  next
    case False
    have "\<forall>k\<in>set bs. hd bs \<le> k"
      using s_bs sorted_hd_le by blast
    moreover have "hd bs \<in> set bs" using False by simp
    ultimately show ?thesis
      using False bs_all as_all by (auto simp: up is_succ_def K)
  qed
  from p s show ?thesis ..
qed

lemma map_fst_set_upper: "map fst (set_upper k x nb) = map fst nb"
  by (induction nb) (auto simp: set_upper_def)

lemma map_fst_set_lower: "map fst (set_lower k x nb) = map fst nb"
  by (induction nb) (auto simp: set_lower_def)

lemma pred_keep:
  assumes p: "is_pred K lo k" and u: "is_succ K U x" and ne: "Some k \<noteq> U"
    and k: "k \<in> K" and xk: "x \<noteq> k"
  shows "is_pred (insert x K) lo k"
proof (cases "x < k")
  case False
  with p show ?thesis by (auto simp: is_pred_def split: option.splits)
next
  case True
  then obtain u where U: "U = Some u" and uK: "u \<in> K" and xu: "x < u"
      and gap: "\<forall>j\<in>K. \<not> (x < j \<and> j < u)"
    using u k by (cases U) (auto simp: is_succ_def)
  have "\<not> k < u" using gap k True by blast
  moreover have "u \<noteq> k" using ne U by simp
  ultimately have uk: "u < k" by simp
  show ?thesis
  proof (cases lo)
    case None
    then show ?thesis using p uK uk by (auto simp: is_pred_def)
  next
    case (Some l)
    then have "\<not> (l < u \<and> u < k)" using p uK by (auto simp: is_pred_def)
    then have "u \<le> l" using uk by simp
    then have "\<not> l < x" using xu by simp
    then show ?thesis using p Some by (auto simp: is_pred_def)
  qed
qed

lemma succ_keep:
  assumes s: "is_succ K up k" and l: "is_pred K L x" and ne: "Some k \<noteq> L"
    and k: "k \<in> K" and xk: "x \<noteq> k"
  shows "is_succ (insert x K) up k"
proof (cases "k < x")
  case False
  with s show ?thesis by (auto simp: is_succ_def split: option.splits)
next
  case True
  then obtain l' where L: "L = Some l'" and lK: "l' \<in> K" and lx: "l' < x"
      and gap: "\<forall>j\<in>K. \<not> (l' < j \<and> j < x)"
    using l k by (cases L) (auto simp: is_pred_def)
  have "\<not> l' < k" using gap k True by blast
  moreover have "l' \<noteq> k" using ne L by simp
  ultimately have kl: "k < l'" by simp
  show ?thesis
  proof (cases up)
    case None
    then show ?thesis using s lK kl by (auto simp: is_succ_def)
  next
    case (Some u)
    then have "\<not> (k < l' \<and> l' < u)" using s lK by (auto simp: is_succ_def)
    then have "u \<le> l'" using kl by simp
    then have "\<not> x < u" using lx by simp
    then show ?thesis using s Some by (auto simp: is_succ_def)
  qed
qed

lemma pred_new:
  assumes "is_succ K (Some k) x"
  shows "is_pred (insert x K) (Some x) k"
  using assms by (auto simp: is_succ_def is_pred_def)

lemma succ_new:
  assumes "is_pred K (Some k) x"
  shows "is_succ (insert x K) (Some x) k"
  using assms by (auto simp: is_succ_def is_pred_def)

lemma pred_self:
  assumes "is_pred K L x"
  shows "is_pred (insert x K) L x"
  using assms by (auto simp: is_pred_def split: option.splits)

lemma succ_self:
  assumes "is_succ K U x"
  shows "is_succ (insert x K) U x"
  using assms by (auto simp: is_succ_def split: option.splits)

lemma update_neighbors_keys: "keys_of (update_neighbors x nb) = insert x (keys_of nb)"
proof (cases "map_of nb x = None")
  case True
  obtain L U where f: "find_neighbors x nb = (L, U)" by (cases "find_neighbors x nb")
  have "fst ` set (set_lower U x (set_upper L x (sd_set x (L, U) nb))) = insert x (fst ` set nb)"
    using keys_sd_set [of x "(L, U)" nb]
    by (simp add: map_fst_set_lower map_fst_set_upper flip: set_map)
  then show ?thesis using True by (simp add: update_neighbors_def f keys_of_def)
next
  case False
  then have "x \<in> keys_of nb" using map_of_keys [of nb x] by blast
  then show ?thesis using False by (auto simp: update_neighbors_def)
qed

lemma update_neighbors_wf:
  assumes wf: "nbrs_wf nb"
  shows "nbrs_wf (update_neighbors x nb)"
proof (cases "map_of nb x = None")
  case False
  then show ?thesis using wf by (auto simp: update_neighbors_def)
next
  case True
  then have new: "x \<notin> keys_of nb" using map_of_keys [of nb x] by simp
  have srt: "sorted_wrt (<) (map fst nb)" using wf by (simp add: nbrs_wf_def)
  obtain L U where f: "find_neighbors x nb = (L, U)" by (cases "find_neighbors x nb")
  have pL: "is_pred (keys_of nb) L x" and sU: "is_succ (keys_of nb) U x"
    using find_neighbors_spec [OF srt new] by (simp_all add: f)
  define nb1 where "nb1 = sd_set x (L, U) nb"
  define nb' where "nb' = set_lower U x (set_upper L x nb1)"
  have upd: "update_neighbors x nb = nb'"
    using True by (simp add: update_neighbors_def f nb'_def nb1_def)
  have keys: "keys_of nb' = insert x (keys_of nb)"
    using update_neighbors_keys [of x nb] by (simp add: upd)
  have srt': "sorted_wrt (<) (map fst nb')"
    using sorted_sd_set [OF srt, of x "(L, U)"]
    by (simp add: nb'_def nb1_def map_fst_set_lower map_fst_set_upper)
  have set1: "set nb1 = insert (x, (L, U)) (set nb)"
    unfolding nb1_def using new by (intro set_sd_set_new) (simp add: keys_of_def)
  have xL: "Some x \<noteq> L" using pL by (auto simp: is_pred_def)
  have xU: "Some x \<noteq> U" using sU by (auto simp: is_succ_def)
  have elem: "is_pred (insert x (keys_of nb)) (fst (snd e)) (fst e) \<and>
              is_succ (insert x (keys_of nb)) (snd (snd e)) (fst e)"
    if e: "e \<in> set nb'" for e
  proof -
    obtain k lo up where e1: "(k, (lo, up)) \<in> set nb1"
        and e': "e = (k, (if Some k = U then Some x else lo, if Some k = L then Some x else up))"
      using e by (auto simp: nb'_def set_lower_def set_upper_def split: if_splits)
    show ?thesis
    proof (cases "k = x")
      case True
      then have "(lo, up) = (L, U)"
        using e1 new by (force simp: set1 keys_of_def)
      then show ?thesis
        using True xL xU pL sU by (simp add: e' pred_self succ_self)
    next
      case False
      then have mem: "(k, (lo, up)) \<in> set nb" using e1 by (simp add: set1)
      then have kK: "k \<in> keys_of nb" by (force simp: keys_of_def)
      have p: "is_pred (keys_of nb) lo k" and s: "is_succ (keys_of nb) up k"
        using wf mem by (auto simp: nbrs_wf_def)
      have xk: "x \<noteq> k" using False by simp
      have P: "is_pred (insert x (keys_of nb)) (if Some k = U then Some x else lo) k"
      proof (cases "Some k = U")
        case True
        then show ?thesis using sU pred_new [of "keys_of nb" k x] by simp
      next
        case False
        then show ?thesis using pred_keep [OF p sU False kK xk] by simp
      qed
      have S: "is_succ (insert x (keys_of nb)) (if Some k = L then Some x else up) k"
      proof (cases "Some k = L")
        case True
        then show ?thesis using pL succ_new [of "keys_of nb" k x] by simp
      next
        case False
        then show ?thesis using succ_keep [OF s pL False kK xk] by simp
      qed
      from P S show ?thesis by (simp add: e')
    qed
  qed
  show ?thesis
    unfolding upd nbrs_wf_def keys using srt' elem by blast
qed

section \<open>Properties of the loss maps\<close>

lemma adjacent_pairs_insert:
  assumes p: "is_pred (insert x K) lo x" and s: "is_succ (insert x K) up x"
  shows "adjacent_pairs (insert x K) =
           (adjacent_pairs K \<union> (case lo of Some l \<Rightarrow> {(l, x)} | None \<Rightarrow> {})
                             \<union> (case up of Some u \<Rightarrow> {(x, u)} | None \<Rightarrow> {}))
           - (case (lo, up) of (Some l, Some u) \<Rightarrow> {(l, u)} | _ \<Rightarrow> {})"
  using assms
  apply (cases lo; cases up)
  apply (auto simp: adjacent_pairs_def is_pred_def is_succ_def)
     apply (metis not_less_iff_gr_or_eq)
    apply (metis not_less_iff_gr_or_eq)
   apply (metis not_less_iff_gr_or_eq)
  apply (metis not_less_iff_gr_or_eq less_trans)
  done


lemma nbrs_lookup:
  assumes wf: "nbrs_wf nb" and x: "x \<in> keys_of nb"
  obtains lo up where "map_of nb x = Some (lo, up)"
    and "is_pred (keys_of nb) lo x" and "is_succ (keys_of nb) up x"
proof -
  obtain e where m: "map_of nb x = Some e"
    using x map_of_keys [of nb x] by blast
  obtain lo up where e: "e = (lo, up)" by (cases e)
  have "(x, (lo, up)) \<in> set nb" using m e by (simp add: map_of_SomeD)
  then have "is_pred (keys_of nb) lo x \<and> is_succ (keys_of nb) up x"
    using wf by (force simp: nbrs_wf_def)
  then show ?thesis using that m e by simp
qed

lemma pf_sqrt_sum_ok:
  assumes "q = Fin r \<or> q = NaN"
  shows "\<exists>v. pf_sqrt (pf_add (pf_sq (Fin a)) (pf_sq q)) = Inr v"
  using assms by (auto simp: pf_sq_def not_sum_squares_lt_zero)

lemma pf_sqrt_sq_ok: "\<exists>v. pf_sqrt (pf_sq (Fin a)) = Inr v"
  by (simp add: pf_sq_def)

lemma pf_div_fin_cases:
  assumes "\<not> pf_eq d (Fin 0)"
  shows "\<exists>q. pf_div (Fin a) d = Inr q \<and> ((\<exists>r. q = Fin r) \<or> q = NaN)"
  using assms by (cases d) auto

lemma interval_loss_ok:
  assumes a: "a \<in> keys_of d" and b: "b \<in> keys_of d"
    and vals: "\<forall>e\<in>set d. snd e \<noteq> None"
    and sc: "fst sc = Fin w" and w: "w \<noteq> 0"
  shows "\<exists>v. interval_loss sc a b d = Inr v"
proof -
  obtain va where ma: "map_of d a = Some va"
    using a map_of_keys [of d a] by blast
  obtain vb where mb: "map_of d b = Some vb"
    using b map_of_keys [of d b] by blast
  have "(a, va) \<in> set d" "(b, vb) \<in> set d"
    using ma mb by (simp_all add: map_of_SomeD)
  then obtain ya yb where ya: "va = Some ya" and yb: "vb = Some yb"
    using vals by force
  have dx: "pf_div (Fin (b - a)) (fst sc) = Inr (Fin ((b - a) / w))"
    using w by (simp add: sc)
  show ?thesis
  proof (cases "pf_eq (snd sc) (Fin 0)")
    case True
    then show ?thesis
      using pf_sqrt_sq_ok [of "(b - a) / w"]
      by (simp add: interval_loss_def ma mb dx)
  next
    case False
    obtain q where q: "pf_div (Fin (yb - ya)) (snd sc) = Inr q"
        and qc: "(\<exists>r. q = Fin r) \<or> q = NaN"
      using pf_div_fin_cases [OF False] by blast
    obtain v where "pf_sqrt (pf_add (pf_sq (Fin ((b - a) / w))) (pf_sq q)) = Inr v"
      using qc pf_sqrt_sum_ok by blast
    then show ?thesis
      using False by (simp add: interval_loss_def ma mb dx ya yb q)
  qed
qed


lemma update_losses_ok:
  assumes wf: "nbrs_wf nb" and x: "x \<in> keys_of nb" and sub: "keys_of nb \<subseteq> keys_of d"
    and vals: "\<forall>e\<in>set d. snd e \<noteq> None"
    and bb: "\<forall>k\<in>keys_of nb. bl \<le> k \<and> k \<le> bh" and sc: "fst sc = Fin (bh - bl)"
    and K: "keys_of nb = insert x K"
    and ls: "keys_of ls = adjacent_pairs K" and dist: "distinct (map fst ls)"
  shows "\<exists>ls'. update_losses sc x d nb ls = Inr ls' \<and> losses_wf nb ls'"
proof -
  obtain lo up where m: "map_of nb x = Some (lo, up)"
      and p: "is_pred (keys_of nb) lo x" and s: "is_succ (keys_of nb) up x"
    using nbrs_lookup [OF wf x] by blast
  have xd: "x \<in> keys_of d" using x sub by blast
  have il: "\<exists>v. interval_loss sc a b d = Inr v"
    if "a \<in> keys_of nb" "b \<in> keys_of nb" "a < b" for a b
  proof -
    have "bl \<le> a" "b \<le> bh" using bb that by auto
    then have "bh - bl \<noteq> 0" using that(3) by simp
    then show ?thesis
      using that sub vals sc by (intro interval_loss_ok [where w = "bh - bl"]) auto
  qed
  have adj: "adjacent_pairs (keys_of nb) =
           (adjacent_pairs K \<union> (case lo of Some l \<Rightarrow> {(l, x)} | None \<Rightarrow> {})
                             \<union> (case up of Some u \<Rightarrow> {(x, u)} | None \<Rightarrow> {}))
           - (case (lo, up) of (Some l, Some u) \<Rightarrow> {(l, u)} | _ \<Rightarrow> {})"
    using adjacent_pairs_insert [of x K lo up] p s by (simp add: K)
  show ?thesis
  proof (cases lo)
    case None
    note lo = None
    show ?thesis
    proof (cases up)
      case None
      then show ?thesis
        using lo adj ls dist
        by (simp add: update_losses_def m losses_wf_def)
    next
      case (Some u)
      then have "u \<in> keys_of nb" "x < u" using s by (auto simp: is_succ_def)
      then obtain v where v: "interval_loss sc x u d = Inr v" using il x by blast
      show ?thesis
        using lo Some adj ls dist
        by (simp add: update_losses_def m v losses_wf_def keys_of_dict_set distinct_dict_set)
    qed
  next
    case (Some l)
    note lo = Some
    have "l \<in> keys_of nb" "l < x" using p lo by (auto simp: is_pred_def)
    then obtain v1 where v1: "interval_loss sc l x d = Inr v1" using il x by blast
    show ?thesis
    proof (cases up)
      case None
      then show ?thesis
        using lo adj ls dist
        by (simp add: update_losses_def m v1 losses_wf_def keys_of_dict_set distinct_dict_set)
    next
      case (Some u)
      then have "u \<in> keys_of nb" "x < u" using s by (auto simp: is_succ_def)
      then obtain v2 where v2: "interval_loss sc x u d = Inr v2" using il x by blast
      show ?thesis
        using lo Some adj ls dist
        by (simp add: update_losses_def m v1 v2 losses_wf_def keys_of_dict_set keys_of_dict_del
              distinct_dict_set distinct_dict_del Un_commute insert_commute)
    qed
  qed
qed

lemma recompute_losses_ok:
  assumes "\<forall>k\<in>keys_of ls. \<exists>v. interval_loss sc (fst k) (snd k) d = Inr v"
  shows "\<exists>ls'. recompute_losses sc d ls = Inr ls' \<and> map fst ls' = map fst ls"
  using assms
proof (induction sc d ls rule: recompute_losses.induct)
  case (1 sc d)
  show ?case by simp
next
  case (2 sc d a b v ls)
  obtain w where w: "interval_loss sc a b d = Inr w"
    using "2.prems" by (force simp: keys_of_def)
  have "\<forall>k\<in>keys_of ls. \<exists>v. interval_loss sc (fst k) (snd k) d = Inr v"
    using "2.prems" by (simp add: keys_of_def)
  then obtain ls' where "recompute_losses sc d ls = Inr ls'" "map fst ls' = map fst ls"
    using "2.IH" [OF w] by blast
  then show ?case by (simp add: w)
qed

section \<open>The invariant of the 1-D learner\<close>

lemma interval_loss_keys_ok:
  assumes bb: "\<forall>k\<in>K. bl \<le> k \<and> k \<le> bh" and sc: "fst sc = Fin (bh - bl)"
    and sub: "K \<subseteq> keys_of d" and vals: "\<forall>e\<in>set d. snd e \<noteq> None"
    and a: "a \<in> K" and b: "b \<in> K" and ab: "a < b"
  shows "\<exists>v. interval_loss sc a b d = Inr v"
proof -
  have "bl \<le> a" "b \<le> bh" using bb a b by auto
  then have "bh - bl \<noteq> 0" using ab by simp
  then show ?thesis
    using a b sub vals sc by (intro interval_loss_ok [where w = "bh - bl"]) auto
qed

lemma recompute_losses_wf:
  assumes lw: "losses_wf nb ls"
    and bb: "\<forall>k\<in>keys_of nb. bl \<le> k \<and> k \<le> bh" and sc: "fst sc = Fin (bh - bl)"
    and sub: "keys_of nb \<subseteq> keys_of d" and vals: "\<forall>e\<in>set d. snd e \<noteq> None"
  shows "\<exists>ls'. recompute_losses sc d ls = Inr ls' \<and> losses_wf nb ls'"
proof -
  have "\<forall>k\<in>keys_of ls. \<exists>v. interval_loss sc (fst k) (snd k) d = Inr v"
  proof
    fix k
    assume "k \<in> keys_of ls"
    then have "k \<in> adjacent_pairs (keys_of nb)" using lw by (simp add: losses_wf_def)
    then have "fst k \<in> keys_of nb" "snd k \<in> keys_of nb" "fst k < snd k"
      by (auto simp: adjacent_pairs_def)
    then show "\<exists>v. interval_loss sc (fst k) (snd k) d = Inr v"
      using interval_loss_keys_ok [OF bb sc sub vals] by blast
  qed
  then obtain ls' where r: "recompute_losses sc d ls = Inr ls'" and k: "map fst ls' = map fst ls"
    using recompute_losses_ok by blast
  have "keys_of ls' = keys_of ls"
    using k by (metis keys_of_def set_map)
  then have "losses_wf nb ls'" using lw k by (simp add: losses_wf_def)
  with r show ?thesis by blast
qed

lemma keys_of_wrap: "keys_of (map (\<lambda>(k, v). (k, Some v)) d) = keys_of d"
  by (force simp: keys_of_def)

lemma values_wrap: "\<forall>e\<in>set (map (\<lambda>(k, v). (k, Some v)) d). snd e \<noteq> None"
  by auto

lemma map_fst_interpolate: "map fst (interpolate s) = map fst (data_interp_1d s)"
  by (simp add: interpolate_def Let_def comp_def)

lemma keys_of_interpolate: "keys_of (interpolate s) = keys_of (data_interp_1d s)"
  using map_fst_interpolate [of s] by (metis keys_of_def set_map)

lemma values_interpolate: "\<forall>e\<in>set (interpolate s). snd e \<noteq> None"
  by (auto simp: interpolate_def Let_def)

lemma keys_of_data_combined:
  "keys_of (data_combined_1d s) = keys_of (data_1d s) \<union> keys_of (data_interp_1d s)"
  by (simp add: data_combined_1d_def keys_of_dict_merge keys_of_wrap)

lemma values_data_combined:
  assumes "\<forall>e\<in>set (data_interp_1d s). snd e \<noteq> None"
  shows "\<forall>e\<in>set (data_combined_1d s). snd e \<noteq> None"
proof
  fix e
  assume "e \<in> set (data_combined_1d s)"
  then have "snd e \<in> snd ` set (map (\<lambda>(x, y). (x, Some y)) (data_1d s)) \<union> snd ` set (data_interp_1d s)"
    using values_dict_merge [of "map (\<lambda>(x, y). (x, Some y)) (data_1d s)" "data_interp_1d s"]
    by (auto simp: data_combined_1d_def)
  then show "snd e \<noteq> None" using assms by auto
qed

lemma init_1d_inv: "inv_1d (init_1d b)"
  by (simp add: inv_1d_def init_1d_def nbrs_wf_def losses_wf_def keys_of_def adjacent_pairs_def)

lemma update_scale_fields:
  "bbox_x_1d (update_scale x y s) = (min (fst (bbox_x_1d s)) x, max (snd (bbox_x_1d s)) x)"
  "fst (scale_1d (update_scale x y s)) = Fin (max (snd (bbox_x_1d s)) x - min (fst (bbox_x_1d s)) x)"
  "data_1d (update_scale x y s) = data_1d s"
  "data_interp_1d (update_scale x y s) = data_interp_1d s"
  "neighbors_1d (update_scale x y s) = neighbors_1d s"
  "neighbors_combined_1d (update_scale x y s) = neighbors_combined_1d s"
  "losses_1d (update_scale x y s) = losses_1d s"
  "losses_combined_1d (update_scale x y s) = losses_combined_1d s"
  by (simp_all add: update_scale_def Let_def)

lemma add_point_1d_pending_inv:
  assumes inv: "inv_1d s"
  shows "\<exists>s'. add_point_1d x None s = Inr s' \<and> inv_1d s'"
proof -
  define s4 where "s4 = update_scale x None
     (s\<lparr> data_interp_1d := dict_set x None (data_interp_1d s),
          neighbors_combined_1d := update_neighbors x (neighbors_combined_1d s) \<rparr>)"
  define s5 where "s5 = s4\<lparr> data_interp_1d := interpolate s4 \<rparr>"
  define bl where "bl = min (fst (bbox_x_1d s)) x"
  define bh where "bh = max (snd (bbox_x_1d s)) x"
  define nbc where "nbc = update_neighbors x (neighbors_combined_1d s)"
  have f4: "data_1d s4 = data_1d s" "data_interp_1d s4 = dict_set x None (data_interp_1d s)"
    "neighbors_1d s4 = neighbors_1d s" "neighbors_combined_1d s4 = nbc"
    "losses_1d s4 = losses_1d s" "losses_combined_1d s4 = losses_combined_1d s"
    "bbox_x_1d s4 = (bl, bh)" "fst (scale_1d s4) = Fin (bh - bl)"
    by (simp_all add: s4_def update_scale_fields bl_def bh_def nbc_def)
  have f5: "data_1d s5 = data_1d s" "data_interp_1d s5 = interpolate s4"
    "neighbors_1d s5 = neighbors_1d s" "neighbors_combined_1d s5 = nbc"
    "losses_1d s5 = losses_1d s" "losses_combined_1d s5 = losses_combined_1d s"
    "bbox_x_1d s5 = (bl, bh)" "fst (scale_1d s5) = Fin (bh - bl)"
    by (simp_all add: s5_def f4)
  have step: "add_point_1d x None s =
      (case update_losses (scale_1d s5) x (data_combined_1d s5) nbc (losses_combined_1d s) of
         Inl e \<Rightarrow> Inl e
       | Inr lc \<Rightarrow> Inr (s5\<lparr> losses_combined_1d := lc \<rparr>))"
    by (simp add: add_point_1d_def Let_def s5_def s4_def nbc_def update_scale_fields
          split: sum.splits)
  have wfc: "nbrs_wf nbc"
    using inv by (simp add: nbc_def inv_1d_def update_neighbors_wf)
  have kc: "keys_of nbc = insert x (keys_of (neighbors_combined_1d s))"
    by (simp add: nbc_def update_neighbors_keys)
  have ki: "keys_of (data_interp_1d s5) = insert x (keys_of (data_interp_1d s))"
    by (simp add: f5 keys_of_interpolate f4 keys_of_dict_set)
  have vi: "\<forall>e\<in>set (data_interp_1d s5). snd e \<noteq> None"
    by (simp add: f5 values_interpolate)
  have kdc: "keys_of (data_combined_1d s5) = keys_of nbc"
    using inv by (simp add: keys_of_data_combined f5(1) ki kc inv_1d_def)
  have vdc: "\<forall>e\<in>set (data_combined_1d s5). snd e \<noteq> None"
    using vi by (rule values_data_combined)
  have old: "\<forall>k\<in>keys_of (neighbors_combined_1d s). fst (bbox_x_1d s) \<le> k \<and> k \<le> snd (bbox_x_1d s)"
    using inv by (simp add: inv_1d_def)
  have bb: "\<forall>k\<in>keys_of nbc. bl \<le> k \<and> k \<le> bh"
    using old by (auto simp: kc bl_def bh_def min_le_iff_disj le_max_iff_disj)
  have lw: "keys_of (losses_combined_1d s) = adjacent_pairs (keys_of (neighbors_combined_1d s))"
     "distinct (map fst (losses_combined_1d s))"
    using inv by (simp_all add: inv_1d_def losses_wf_def)
  obtain lc where lc: "update_losses (scale_1d s5) x (data_combined_1d s5) nbc (losses_combined_1d s) = Inr lc"
      and lcw: "losses_wf nbc lc"
  proof -
    have xin: "x \<in> keys_of nbc" by (simp add: kc)
    have sub: "keys_of nbc \<subseteq> keys_of (data_combined_1d s5)" by (simp add: kdc)
    show ?thesis
      using update_losses_ok [OF wfc xin sub vdc bb f5(8) kc lw] that by blast
  qed
  have ki': "keys_of (interpolate s4) = insert x (keys_of (data_interp_1d s))"
    using ki by (simp add: f5)
  have "inv_1d (s5\<lparr> losses_combined_1d := lc \<rparr>)"
    using inv wfc lcw vi bb
    by (simp add: inv_1d_def f5 ki' kc)
  then show ?thesis by (simp add: step lc)
qed

lemma add_point_1d_real_inv:
  assumes inv: "inv_1d s"
  shows "\<exists>s'. add_point_1d x (Some v) s = Inr s' \<and> inv_1d s'"
proof -
  define nbc where "nbc = update_neighbors x (neighbors_combined_1d s)"
  define nb where "nb = update_neighbors x (neighbors_1d s)"
  define s4 where "s4 = update_scale x (Some v)
     (s\<lparr> data_1d := sd_set x v (data_1d s),
          data_interp_1d := dict_del x (data_interp_1d s),
          neighbors_combined_1d := nbc, neighbors_1d := nb \<rparr>)"
  define bl where "bl = min (fst (bbox_x_1d s)) x"
  define bh where "bh = max (snd (bbox_x_1d s)) x"
  define wd where "wd = map (\<lambda>(k, v). (k, Some v)) (data_1d s4)"
  have f4: "data_1d s4 = sd_set x v (data_1d s)"
    "data_interp_1d s4 = dict_del x (data_interp_1d s)"
    "neighbors_1d s4 = nb" "neighbors_combined_1d s4 = nbc"
    "losses_1d s4 = losses_1d s" "losses_combined_1d s4 = losses_combined_1d s"
    "bbox_x_1d s4 = (bl, bh)" "fst (scale_1d s4) = Fin (bh - bl)"
    by (simp_all add: s4_def update_scale_fields bl_def bh_def)
  have step: "add_point_1d x (Some v) s =
      (case update_losses (scale_1d s4) x (data_combined_1d s4) nbc (losses_combined_1d s) of
         Inl e \<Rightarrow> Inl e
       | Inr lc \<Rightarrow>
          (case update_losses (scale_1d s4) x wd nb (losses_1d s) of
             Inl e \<Rightarrow> Inl e
           | Inr lr \<Rightarrow>
               (if scale_doubled (s4\<lparr> losses_combined_1d := lc, losses_1d := lr \<rparr>) then
                  (case recompute_losses (scale_1d s4) wd lr of
                     Inl e \<Rightarrow> Inl e
                   | Inr l1 \<Rightarrow>
                       (case recompute_losses (scale_1d s4) (data_combined_1d s4) lc of
                          Inl e \<Rightarrow> Inl e
                        | Inr l2 \<Rightarrow>
                            Inr (s4\<lparr> losses_combined_1d := l2, losses_1d := l1,
                                     oldscale_1d := scale_1d s4 \<rparr>)))
                else Inr (s4\<lparr> losses_combined_1d := lc, losses_1d := lr \<rparr>))))"
    by (simp add: add_point_1d_def Let_def s4_def nbc_def nb_def wd_def update_scale_fields
          data_combined_1d_def split: sum.splits)
  have wfc: "nbrs_wf nbc" and wfr: "nbrs_wf nb"
    using inv by (simp_all add: nbc_def nb_def inv_1d_def update_neighbors_wf)
  have kc: "keys_of nbc = insert x (keys_of (neighbors_combined_1d s))"
    by (simp add: nbc_def update_neighbors_keys)
  have kr: "keys_of nb = insert x (keys_of (neighbors_1d s))"
    by (simp add: nb_def update_neighbors_keys)
  have kd: "keys_of (data_1d s4) = insert x (keys_of (data_1d s))"
    by (simp add: f4 keys_of_sd_set)
  have ki: "keys_of (data_interp_1d s4) = keys_of (data_interp_1d s) - {x}"
    by (simp add: f4 keys_of_dict_del)
  have vi0: "\<forall>e\<in>set (data_interp_1d s). snd e \<noteq> None"
    using inv by (simp add: inv_1d_def)
  have vi: "\<forall>e\<in>set (data_interp_1d s4). snd e \<noteq> None"
    using vi0 set_dict_del [of x "data_interp_1d s"] by (auto simp: f4)
  have kcs: "keys_of (neighbors_combined_1d s) = keys_of (data_1d s) \<union> keys_of (data_interp_1d s)"
    and krs: "keys_of (neighbors_1d s) = keys_of (data_1d s)"
    using inv by (simp_all add: inv_1d_def)
  have kdc: "keys_of (data_combined_1d s4) = keys_of nbc"
    unfolding keys_of_data_combined kd ki kc kcs by blast
  have vdc: "\<forall>e\<in>set (data_combined_1d s4). snd e \<noteq> None"
    using vi by (rule values_data_combined)
  have kwd: "keys_of wd = keys_of nb"
    by (simp add: wd_def keys_of_wrap kd kr krs)
  have vwd: "\<forall>e\<in>set wd. snd e \<noteq> None"
    unfolding wd_def by (rule values_wrap)
  have old: "\<forall>k\<in>keys_of (neighbors_combined_1d s). fst (bbox_x_1d s) \<le> k \<and> k \<le> snd (bbox_x_1d s)"
    using inv by (simp add: inv_1d_def)
  have bbc: "\<forall>k\<in>keys_of nbc. bl \<le> k \<and> k \<le> bh"
    using old by (auto simp: kc bl_def bh_def min_le_iff_disj le_max_iff_disj)
  have sub: "keys_of nb \<subseteq> keys_of nbc"
    unfolding kr kc krs kcs by blast
  have bbr: "\<forall>k\<in>keys_of nb. bl \<le> k \<and> k \<le> bh"
    using bbc sub by blast
  have lwc: "keys_of (losses_combined_1d s) = adjacent_pairs (keys_of (neighbors_combined_1d s))"
     "distinct (map fst (losses_combined_1d s))"
    and lwr: "keys_of (losses_1d s) = adjacent_pairs (keys_of (neighbors_1d s))"
     "distinct (map fst (losses_1d s))"
    using inv by (simp_all add: inv_1d_def losses_wf_def)
  obtain lc where lc: "update_losses (scale_1d s4) x (data_combined_1d s4) nbc (losses_combined_1d s) = Inr lc"
      and lcw: "losses_wf nbc lc"
  proof -
    have xin: "x \<in> keys_of nbc" by (simp add: kc)
    have sb: "keys_of nbc \<subseteq> keys_of (data_combined_1d s4)" by (simp add: kdc)
    show ?thesis
      using update_losses_ok [OF wfc xin sb vdc bbc f4(8) kc lwc] that by blast
  qed
  obtain lr where lr: "update_losses (scale_1d s4) x wd nb (losses_1d s) = Inr lr"
      and lrw: "losses_wf nb lr"
  proof -
    have xin: "x \<in> keys_of nb" by (simp add: kr)
    have sb: "keys_of nb \<subseteq> keys_of wd" by (simp add: kwd)
    show ?thesis
      using update_losses_ok [OF wfr xin sb vwd bbr f4(8) kr lwr] that by blast
  qed
  obtain l1 where l1: "recompute_losses (scale_1d s4) wd lr = Inr l1" and l1w: "losses_wf nb l1"
  proof -
    have sb: "keys_of nb \<subseteq> keys_of wd" by (simp add: kwd)
    show ?thesis
      using recompute_losses_wf [OF lrw bbr f4(8) sb vwd] that by blast
  qed
  obtain l2 where l2: "recompute_losses (scale_1d s4) (data_combined_1d s4) lc = Inr l2"
      and l2w: "losses_wf nbc l2"
  proof -
    have sb: "keys_of nbc \<subseteq> keys_of (data_combined_1d s4)" by (simp add: kdc)
    show ?thesis
      using recompute_losses_wf [OF lcw bbc f4(8) sb vdc] that by blast
  qed
  have kd': "keys_of (sd_set x v (data_1d s)) = keys_of nb"
    using kd by (simp add: f4 kr krs)
  have kc': "keys_of nbc = keys_of nb \<union> keys_of (dict_del x (data_interp_1d s))"
    using kdc by (simp add: keys_of_data_combined f4 kd')
  have vi': "\<forall>e\<in>set (dict_del x (data_interp_1d s)). snd e \<noteq> None"
    using vi by (simp add: f4)
  have A: "inv_1d (s4\<lparr> losses_combined_1d := lc, losses_1d := lr \<rparr>)"
    using wfc wfr lcw lrw vi' bbc
    by (simp add: inv_1d_def f4 kd' kc')
  have B: "inv_1d (s4\<lparr> losses_combined_1d := l2, losses_1d := l1, oldscale_1d := scale_1d s4 \<rparr>)"
    using wfc wfr l1w l2w vi' bbc
    by (simp add: inv_1d_def f4 kd' kc')
  show ?thesis
    using A B by (simp add: step lc lr l1 l2)
qed

lemma add_point_1d_inv:
  assumes "inv_1d s"
  shows "\<exists>s'. add_point_1d x y s = Inr s' \<and> inv_1d s'"
  using assms add_point_1d_pending_inv add_point_1d_real_inv by (cases y) auto

lemma add_points_1d_inv:
  assumes "inv_1d s"
  shows "\<exists>s'. add_points_1d ops s = Inr s' \<and> inv_1d s'"
  using assms
proof (induction ops s rule: add_points_1d.induct)
  case (1 s)
  then show ?case by simp
next
  case (2 x y ops s)
  obtain s1 where s1: "add_point_1d x y s = Inr s1" and i1: "inv_1d s1"
    using add_point_1d_inv [OF "2.prems"] by blast
  show ?case using "2.IH" [OF s1 i1] by (simp add: s1)
qed

lemma succ_unique:
  assumes "is_succ K up a" and "b \<in> K" and "a < b" and "\<forall>k\<in>K. \<not> (a < k \<and> k < b)"
  shows "up = Some b"
proof (cases up)
  case None
  then show ?thesis using assms by (auto simp: is_succ_def)
next
  case (Some u)
  then have u: "u \<in> K" "a < u" "\<forall>k\<in>K. \<not> (a < k \<and> k < u)"
    using assms(1) by (auto simp: is_succ_def)
  have "\<not> u < b" using assms(4) u by blast
  moreover have "\<not> b < u" using u(3) assms(2,3) by blast
  ultimately show ?thesis using Some by simp
qed

lemma pred_unique:
  assumes "is_pred K lo b" and "a \<in> K" and "a < b" and "\<forall>k\<in>K. \<not> (a < k \<and> k < b)"
  shows "lo = Some a"
proof (cases lo)
  case None
  then show ?thesis using assms by (auto simp: is_pred_def)
next
  case (Some l)
  then have l: "l \<in> K" "l < b" "\<forall>k\<in>K. \<not> (l < k \<and> k < b)"
    using assms(1) by (auto simp: is_pred_def)
  have "\<not> a < l" using assms(4) l by blast
  moreover have "\<not> l < a" using l(3) assms(2,3) by blast
  ultimately show ?thesis using Some by simp
qed

lemma wf_keyed:
  assumes wf: "nbrs_wf nb" and lw: "losses_wf nb ls"
  shows "keyed_by_neighbors nb ls"
proof -
  let ?K = "keys_of nb"
  have keys: "keys_of ls = adjacent_pairs ?K" using lw by (simp add: losses_wf_def)
  have part1: "(case lo of Some l \<Rightarrow> map_of ls (l, x) \<noteq> None
                 | None \<Rightarrow> list_all (\<lambda>((a, b), v). b \<noteq> x) ls) \<and>
               (case up of Some u \<Rightarrow> map_of ls (x, u) \<noteq> None
                 | None \<Rightarrow> list_all (\<lambda>((a, b), v). a \<noteq> x) ls)"
    if e: "(x, (lo, up)) \<in> set nb" for x lo up
  proof -
    have xK: "x \<in> ?K" using e by (force simp: keys_of_def)
    have p: "is_pred ?K lo x" and s: "is_succ ?K up x"
      using wf e by (force simp: nbrs_wf_def)+
    have A: "(case lo of Some l \<Rightarrow> map_of ls (l, x) \<noteq> None
                 | None \<Rightarrow> list_all (\<lambda>((a, b), v). b \<noteq> x) ls)"
    proof (cases lo)
      case (Some l)
      then have "(l, x) \<in> adjacent_pairs ?K"
        using p xK by (auto simp: is_pred_def adjacent_pairs_def)
      then show ?thesis using Some keys map_of_keys [of ls "(l, x)"] by simp
    next
      case None
      have "b \<noteq> x" if "((a, b), v) \<in> set ls" for a b v
      proof -
        have "(a, b) \<in> adjacent_pairs ?K" using that keys by (force simp: keys_of_def)
        then have "a \<in> ?K" "a < b" by (auto simp: adjacent_pairs_def)
        then show ?thesis using p None by (auto simp: is_pred_def)
      qed
      then show ?thesis using None by (auto simp: list_all_iff)
    qed
    have B: "(case up of Some u \<Rightarrow> map_of ls (x, u) \<noteq> None
                 | None \<Rightarrow> list_all (\<lambda>((a, b), v). a \<noteq> x) ls)"
    proof (cases up)
      case (Some u)
      then have "(x, u) \<in> adjacent_pairs ?K"
        using s xK by (auto simp: is_succ_def adjacent_pairs_def)
      then show ?thesis using Some keys map_of_keys [of ls "(x, u)"] by simp
    next
      case None
      have "a \<noteq> x" if "((a, b), v) \<in> set ls" for a b v
      proof -
        have "(a, b) \<in> adjacent_pairs ?K" using that keys by (force simp: keys_of_def)
        then have "b \<in> ?K" "a < b" by (auto simp: adjacent_pairs_def)
        then show ?thesis using s None by (auto simp: is_succ_def)
      qed
      then show ?thesis using None by (auto simp: list_all_iff)
    qed
    from A B show ?thesis ..
  qed
  have part2: "(case map_of nb a of Some (lo, Some b') \<Rightarrow> b' = b | _ \<Rightarrow> False) \<and>
               (case map_of nb b of Some (Some a', up) \<Rightarrow> a' = a | _ \<Rightarrow> False)"
    if e: "((a, b), v) \<in> set ls" for a b v
  proof -
    have "(a, b) \<in> adjacent_pairs ?K" using e keys by (force simp: keys_of_def)
    then have aK: "a \<in> ?K" and bK: "b \<in> ?K" and ab: "a < b"
        and gap: "\<forall>k\<in>?K. \<not> (a < k \<and> k < b)"
      by (auto simp: adjacent_pairs_def)
    obtain lo1 up1 where m1: "map_of nb a = Some (lo1, up1)" and s1: "is_succ ?K up1 a"
      using nbrs_lookup [OF wf aK] by blast
    obtain lo2 up2 where m2: "map_of nb b = Some (lo2, up2)" and p2: "is_pred ?K lo2 b"
      using nbrs_lookup [OF wf bK] by blast
    have "up1 = Some b" using succ_unique [OF s1 bK ab gap] .
    moreover have "lo2 = Some a" using pred_unique [OF p2 aK ab gap] .
    ultimately show ?thesis by (simp add: m1 m2)
  qed
  have P1: "\<forall>e\<in>set nb. (\<lambda>(x, (lo, up)).
        (case lo of Some l \<Rightarrow> map_of ls (l, x) \<noteq> None
                  | None \<Rightarrow> list_all (\<lambda>((a, b), v). b \<noteq> x) ls) \<and>
        (case up of Some u \<Rightarrow> map_of ls (x, u) \<noteq> None
                  | None \<Rightarrow> list_all (\<lambda>((a, b), v). a \<noteq> x) ls)) e"
  proof
    fix e
    assume e: "e \<in> set nb"
    obtain x lo up where "e = (x, (lo, up))" by (cases e) auto
    then show "(\<lambda>(x, (lo, up)).
        (case lo of Some l \<Rightarrow> map_of ls (l, x) \<noteq> None
                  | None \<Rightarrow> list_all (\<lambda>((a, b), v). b \<noteq> x) ls) \<and>
        (case up of Some u \<Rightarrow> map_of ls (x, u) \<noteq> None
                  | None \<Rightarrow> list_all (\<lambda>((a, b), v). a \<noteq> x) ls)) e"
      using part1 [of x lo up] e by simp
  qed
  have P2: "\<forall>e\<in>set ls. (\<lambda>((a, b), v).
        (case map_of nb a of Some (lo, Some b') \<Rightarrow> b' = b | _ \<Rightarrow> False) \<and>
        (case map_of nb b of Some (Some a', up) \<Rightarrow> a' = a | _ \<Rightarrow> False)) e"
  proof
    fix e
    assume e: "e \<in> set ls"
    obtain a b v where "e = ((a, b), v)" by (cases e) auto
    then show "(\<lambda>((a, b), v).
        (case map_of nb a of Some (lo, Some b') \<Rightarrow> b' = b | _ \<Rightarrow> False) \<and>
        (case map_of nb b of Some (Some a', up) \<Rightarrow> a' = a | _ \<Rightarrow> False)) e"
      using part2 [of a b v] e by simp
  qed
  show ?thesis
    unfolding keyed_by_neighbors_def
    using P1 P2 by (simp only: Ball_set)
qed

lemma inv_1d_keyed:
  assumes "inv_1d s"
  shows "keyed_by_neighbors (neighbors_1d s) (losses_1d s) \<and>
         keyed_by_neighbors (neighbors_combined_1d s) (losses_combined_1d s)"
  using assms by (simp add: inv_1d_def wf_keyed)

text \<open>
  In the model (exact arithmetic) no run of \<open>add_point\<close> calls from a fresh learner
  raises: the x-scale is positive whenever two keys exist, and every key that the loss
  update looks up is present.
\<close>

lemma add_points_1d_total:
  "\<exists>s. add_points_1d ops (init_1d b) = Inr s"
  using add_points_1d_inv [OF init_1d_inv] by blast

text \<open>
  Claim C10. After any sequence of \<open>add_point\<close> calls on a fresh 1-D learner, the real
  loss map is keyed by the adjacent pairs of the real neighbour structure and the
  combined loss map by those of the combined one: a key with a left (right) neighbour has
  a loss entry for that pair, a key without one has no loss entry on that side, and
  every loss key is such a pair.
\<close>

theorem add_points_1d_keyed:
  assumes "add_points_1d ops (init_1d b) = Inr s"
  shows "keyed_by_neighbors (neighbors_1d s) (losses_1d s) \<and>
         keyed_by_neighbors (neighbors_combined_1d s) (losses_combined_1d s)"
proof -
  obtain s' where "add_points_1d ops (init_1d b) = Inr s'" and "inv_1d s'"
    using add_points_1d_inv [OF init_1d_inv] by blast
  with assms have "inv_1d s" by simp
  then show ?thesis by (rule inv_1d_keyed)
qed

text \<open>
  Witness for C10: the bounds observed and the midpoint pending. The real structure has
  the one interval \<open>(0, 1)\<close>, the combined one the intervals \<open>(0, 1/2)\<close> and \<open>(1/2, 1)\<close>.
\<close>

theorem add_points_1d_keyed_witness:
  "(case add_points_1d [(0, Some 0), (1, Some 0), (1 / 2, None)] (init_1d (0, 1)) of
      Inl e \<Rightarrow> False
    | Inr s \<Rightarrow>
        neighbors_1d s = [(0, None, Some 1), (1, Some 0, None)] \<and>
        map fst (losses_1d s) = [(0, 1)] \<and>
        neighbors_combined_1d s
          = [(0, None, Some (1 / 2)), (1 / 2, Some 0, Some 1), (1, Some (1 / 2), None)] \<and>
        map fst (losses_combined_1d s) = [(0, 1 / 2), (1 / 2, 1)] \<and>
        keyed_by_neighbors (neighbors_1d s) (losses_1d s) \<and>
        keyed_by_neighbors (neighbors_combined_1d s) (losses_combined_1d s))"
proof -
  obtain s where run: "add_points_1d [(0, Some 0), (1, Some 0), (1 / 2, None)] (init_1d (0, 1)) = Inr s"
    using add_points_1d_total by blast
  have fields: "neighbors_1d s = [(0, None, Some 1), (1, Some 0, None)] \<and>
        map fst (losses_1d s) = [(0, 1)] \<and>
        neighbors_combined_1d s
          = [(0, None, Some (1 / 2)), (1 / 2, Some 0, Some 1), (1, Some (1 / 2), None)] \<and>
        map fst (losses_combined_1d s) = [(0, 1 / 2), (1 / 2, 1)]"
    using run by (auto simp: eval_1d)
  show ?thesis
    unfolding run using add_points_1d_keyed [OF run] fields by simp
qed

section \<open>The averaging learner on floats\<close>

lemma pow2_powr: "pow2 e = (2::real) powr (of_int e)"
proof (cases "0 \<le> e")
  case True
  then show ?thesis
    by (simp add: pow2_def powr_realpow [symmetric])
next
  case False
  then have "(2::real) powr (of_int e) = 1 / 2 powr (of_int (- e))"
    by (simp add: powr_minus_divide)
  also have "\<dots> = 1 / 2 ^ nat (- e)"
    using False by (simp add: powr_realpow [symmetric])
  finally show ?thesis using False by (simp add: pow2_def)
qed

lemma binexp_eq:
  assumes lo: "pow2 e \<le> \<bar>x\<bar>" and hi: "\<bar>x\<bar> < pow2 (e + 1)"
  shows "binexp x = e"
proof -
  have "0 < pow2 e" by (simp add: pow2_powr)
  then have pos: "0 < \<bar>x\<bar>" using lo by linarith
  have "of_int e \<le> log 2 \<bar>x\<bar>"
    using lo pos by (simp add: le_log_iff pow2_powr)
  moreover have "log 2 \<bar>x\<bar> < of_int e + 1"
    using hi pos by (simp add: log_less_iff pow2_powr)
  ultimately show ?thesis
    unfolding binexp_def by (simp add: floor_eq_iff)
qed

lemma fl_eval:
  assumes "pow2 e \<le> \<bar>x\<bar>" and "\<bar>x\<bar> < pow2 (e + 1)"
    and "round_half_even (x / pow2 (e - 52)) = k" and "y = of_int k * pow2 (e - 52)"
  shows "fl x = y"
proof -
  have "0 < pow2 e" by (simp add: pow2_powr)
  then have "x \<noteq> 0" using assms(1) by auto
  then show ?thesis
    using assms by (simp add: fl_def binexp_eq [OF assms(1,2)])
qed

text \<open>The roundings that occur when the float \<open>0.1\<close> is added three times.\<close>

lemma fl_tenth: "fl (1 / 10) = 3602879701896397 / 36028797018963968"
  by (rule fl_eval [where e = "- 4" and k = "7205759403792794"])
     (simp_all add: pow2_def round_half_even_def Let_def)

lemma fl_d: "fl (3602879701896397 / 36028797018963968) = 3602879701896397 / 36028797018963968"
  by (rule fl_eval [where e = "- 4" and k = "7205759403792794"])
     (simp_all add: pow2_def round_half_even_def Let_def)

lemma fl_d_sq: "fl (12980742146337070512478121581609 / 1298074214633706907132624082305024) = 1441151880758559 / 144115188075855872"
  by (rule fl_eval [where e = "- 7" and k = "5764607523034236"])
     (simp_all add: pow2_def round_half_even_def Let_def)

lemma fl_v: "fl (1441151880758559 / 144115188075855872) = 1441151880758559 / 144115188075855872"
  by (rule fl_eval [where e = "- 7" and k = "5764607523034236"])
     (simp_all add: pow2_def round_half_even_def Let_def)

lemma fl_2d: "fl (3602879701896397 / 18014398509481984) = 3602879701896397 / 18014398509481984"
  by (rule fl_eval [where e = "- 3" and k = "7205759403792794"])
     (simp_all add: pow2_def round_half_even_def Let_def)

lemma fl_2v: "fl (1441151880758559 / 72057594037927936) = 1441151880758559 / 72057594037927936"
  by (rule fl_eval [where e = "- 6" and k = "5764607523034236"])
     (simp_all add: pow2_def round_half_even_def Let_def)

lemma fl_3d: "fl (10808639105689191 / 36028797018963968) = 1351079888211149 / 4503599627370496"
  by (rule fl_eval [where e = "- 2" and k = "5404319552844596"])
     (simp_all add: pow2_def round_half_even_def Let_def)

lemma fl_3v: "fl (4323455642275677 / 144115188075855872) = 4323455642275677 / 144115188075855872"
  by (rule fl_eval [where e = "- 6" and k = "8646911284551354"])
     (simp_all add: pow2_def round_half_even_def Let_def)

lemma fl_mean: "fl (1351079888211149 / 13510798882111488) = 7205759403792795 / 72057594037927936"
  by (rule fl_eval [where e = "- 4" and k = "7205759403792795"])
     (simp_all add: pow2_def round_half_even_def Let_def)

lemma fl_mean_sq: "fl (51922968585348296461431293912025 / 5192296858534827628530496329220096) = 5764607523034237 / 576460752303423488"
  by (rule fl_eval [where e = "- 7" and k = "5764607523034237"])
     (simp_all add: pow2_def round_half_even_def Let_def)

lemma fl_3mean_sq: "fl (17293822569102711 / 576460752303423488) = 2161727821137839 / 72057594037927936"
  by (rule fl_eval [where e = "- 6" and k = "8646911284551356"])
     (simp_all add: pow2_def round_half_even_def Let_def)

lemma fl_diff: "fl (- (1 / 144115188075855872)) = - (1 / 144115188075855872)"
  by (rule fl_eval [where e = "- 57" and k = "- 4503599627370496"])
     (simp_all add: pow2_def round_half_even_def Let_def)

lemma fl_half: "fl (- (1 / 288230376151711744)) = - (1 / 288230376151711744)"
  by (rule fl_eval [where e = "- 58" and k = "- 4503599627370496"])
     (simp_all add: pow2_def round_half_even_def Let_def)

text \<open>
  Claim C3, evaluated on the code in double arithmetic. The float \<open>0.1\<close> is
  \<open>3602879701896397 / 2^55\<close>. After three observations of it the sum of squares is
  \<open>0.030000000000000006\<close> and the mean \<open>0.10000000000000002\<close>; then
  \<open>sum_f_sq - n * mean**2\<close> is \<open>-2^-57\<close>, about \<open>-6.9e-18\<close>, and \<open>math.sqrt\<close> raises
  \<open>ValueError\<close>: \<open>std\<close> is not the sample standard deviation 0 of the three values.
\<close>

theorem average_std_float_raises:
  "fl (1 / 10) = 3602879701896397 / 36028797018963968 \<and>
   sum_f_sq_avg (add_points_avg_fl
      [(0, Some (3602879701896397 / 36028797018963968)),
       (1, Some (3602879701896397 / 36028797018963968)),
       (2, Some (3602879701896397 / 36028797018963968))]
      \<lparr> data_avg = Map.empty, atol_avg = Fin (1 / 10), rtol_avg = PInf,
        n_avg = 0, n_requested_avg = 0, sum_f_avg = 0, sum_f_sq_avg = 0 \<rparr>)
     = 4323455642275677 / 144115188075855872 \<and>
   mean_avg_fl (add_points_avg_fl
      [(0, Some (3602879701896397 / 36028797018963968)),
       (1, Some (3602879701896397 / 36028797018963968)),
       (2, Some (3602879701896397 / 36028797018963968))]
      \<lparr> data_avg = Map.empty, atol_avg = Fin (1 / 10), rtol_avg = PInf,
        n_avg = 0, n_requested_avg = 0, sum_f_avg = 0, sum_f_sq_avg = 0 \<rparr>)
     = Inr (7205759403792795 / 72057594037927936) \<and>
   fl (4323455642275677 / 144115188075855872
       - fl (3 * fl (7205759403792795 / 72057594037927936 * (7205759403792795 / 72057594037927936))))
     = - (1 / 144115188075855872) \<and>
   std_avg_fl (add_points_avg_fl
      [(0, Some (3602879701896397 / 36028797018963968)),
       (1, Some (3602879701896397 / 36028797018963968)),
       (2, Some (3602879701896397 / 36028797018963968))]
      \<lparr> data_avg = Map.empty, atol_avg = Fin (1 / 10), rtol_avg = PInf,
        n_avg = 0, n_requested_avg = 0, sum_f_avg = 0, sum_f_sq_avg = 0 \<rparr>) = Inl ValueError"
  by (simp add: fl_tenth std_avg_fl_def mean_avg_fl_def py_sqrt_fl_def add_points_avg_fl_def
        add_point_avg_fl_def fl_d fl_d_sq fl_v fl_2d fl_2v fl_3d fl_3v fl_mean fl_mean_sq
        fl_3mean_sq fl_diff fl_half)

end
